theory Spec2Isabelle
  imports Main "HOL-Library.Multiset"
begin

section \<open>Values shared by the chat router\<close>

text \<open>
  The development follows \<^verbatim>\<open>app/routers/chat.py\<close>. A room is named by the string
  \<^verbatim>\<open>chat_id\<close> of the path; a WebSocket object and an asyncio task are known by their
  identity only, so each is a natural number.
\<close>

type_synonym chat_id = string
type_synonym websocket = nat
type_synonym task = nat

text \<open>
  Exceptions are values. \<open>HTTPException\<close> carries its status code;
  \<open>WebSocketDisconnect\<close> is what \<^verbatim>\<open>receive_text\<close> raises when the client goes away;
  \<open>CancelledError\<close> is asyncio's cancellation, delivered at an \<^verbatim>\<open>await\<close>;
  \<open>RuntimeError\<close> is what a set iterator raises when the set changed size during the
  iteration; the others are the failures of the transport, of the database session and
  of the Redis client.
\<close>

datatype error =
    HTTPException nat
  | WebSocketDisconnect
  | CancelledError
  | KeyError
  | RuntimeError
  | TransportError
  | DbError
  | RedisError

text \<open>
  How a coroutine stands after a finite script of what its awaits met: it returned, an
  exception left it, or it is \<open>Active\<close>, waiting in an \<^verbatim>\<open>await\<close> for what comes next.
\<close>

datatype outcome = Returned | Raised error | Active

section \<open>ConnectionManager\<close>

text \<open>
  \<^verbatim>\<open>self.rooms\<close> and \<^verbatim>\<open>self.redis_tasks\<close> are the two dictionaries of the class.
  \<open>created\<close> and \<open>cancelled\<close> record the calls of \<^verbatim>\<open>asyncio.create_task\<close> and of
  \<^verbatim>\<open>Task.cancel\<close>: the task made by the \<open>n\<close>-th call is the task \<open>n\<close>.
\<close>

record manager =
  rooms :: "chat_id \<rightharpoonup> websocket set"
  redis_tasks :: "chat_id \<rightharpoonup> task"
  created :: "(task \<times> chat_id) list"
  cancelled :: "task list"

definition init_manager :: manager where
  "init_manager = \<lparr>rooms = Map.empty, redis_tasks = Map.empty, created = [], cancelled = []\<rparr>"

text \<open>
  \<^verbatim>\<open>connect\<close> awaits \<^verbatim>\<open>websocket.accept()\<close> before it touches the dictionaries, so an
  accept that raises (\<open>accept_ok = False\<close>) leaves the manager as it was. Everything after
  the accept runs without an \<^verbatim>\<open>await\<close>: \<^verbatim>\<open>create_task\<close> only schedules the listener.
\<close>

definition connect :: "chat_id \<Rightarrow> websocket \<Rightarrow> bool \<Rightarrow> manager \<Rightarrow> error option \<times> manager" where
  "connect chat_id ws accept_ok m =
     (if \<not> accept_ok then (Some TransportError, m)
      else
        let m1 = (if chat_id \<notin> dom (rooms m) then m\<lparr>rooms := (rooms m)(chat_id \<mapsto> {})\<rparr> else m);
            m2 = m1\<lparr>rooms := (rooms m1)(chat_id \<mapsto>
                    insert ws (case rooms m1 chat_id of None \<Rightarrow> {} | Some s \<Rightarrow> s))\<rparr>
        in if chat_id \<notin> dom (redis_tasks m2)
           then (None, m2\<lparr>redis_tasks := (redis_tasks m2)(chat_id \<mapsto> length (created m2)),
                          created := created m2 @ [(length (created m2), chat_id)]\<rparr>)
           else (None, m2))"

text \<open>
  \<^verbatim>\<open>disconnect\<close> has no \<^verbatim>\<open>await\<close> in its body. The room is deleted before
  \<^verbatim>\<open>self.redis_tasks[chat_id]\<close> is read, so a missing task raises \<open>KeyError\<close> with the
  room already gone.
\<close>

definition disconnect :: "chat_id \<Rightarrow> websocket \<Rightarrow> manager \<Rightarrow> error option \<times> manager" where
  "disconnect chat_id ws m =
     (case rooms m chat_id of
        None \<Rightarrow> (None, m)
      | Some s \<Rightarrow>
          let m1 = m\<lparr>rooms := (rooms m)(chat_id \<mapsto> s - {ws})\<rparr>
          in if s - {ws} = {}
             then
               let m2 = m1\<lparr>rooms := (rooms m1)(chat_id := None)\<rparr>
               in (case redis_tasks m2 chat_id of
                     None \<Rightarrow> (Some KeyError, m2)
                   | Some t \<Rightarrow>
                       (None, m2\<lparr>cancelled := cancelled m2 @ [t],
                                 redis_tasks := (redis_tasks m2)(chat_id := None)\<rparr>))
             else (None, m1))"

subsection \<open>Sequences of connects and disconnects\<close>

datatype op = Connect chat_id websocket bool | Disconnect chat_id websocket

fun apply_op :: "op \<Rightarrow> manager \<Rightarrow> manager" where
  "apply_op (Connect chat_id ws accept_ok) m = snd (connect chat_id ws accept_ok m)"
| "apply_op (Disconnect chat_id ws) m = snd (disconnect chat_id ws m)"

fun run :: "op list \<Rightarrow> manager \<Rightarrow> manager" where
  "run [] m = m"
| "run (x # xs) m = run xs (apply_op x m)"


definition members :: "manager \<Rightarrow> chat_id \<Rightarrow> websocket set" where
  "members m chat_id = (case rooms m chat_id of None \<Rightarrow> {} | Some s \<Rightarrow> s)"

definition conn_count :: "manager \<Rightarrow> chat_id \<Rightarrow> nat" where
  "conn_count m chat_id = (case rooms m chat_id of None \<Rightarrow> 0 | Some s \<Rightarrow> card s)"

definition live_tasks :: "manager \<Rightarrow> chat_id \<Rightarrow> task list" where
  "live_tasks m chat_id =
     map fst (filter (\<lambda>(t, c). c = chat_id \<and> t \<notin> set (cancelled m)) (created m))"

text \<open>
  The connections of each room as the spec's words for \<open>register\<close> and \<open>unregister\<close>
  give them, read off the operations alone: a connect whose accept succeeds adds the
  connection to the room's set, a disconnect removes it, and nothing else changes a set.
  \<open>tracked ops f\<close> is what the operations make of the sets \<open>f\<close>.
\<close>

fun track :: "op \<Rightarrow> (chat_id \<Rightarrow> websocket set) \<Rightarrow> (chat_id \<Rightarrow> websocket set)" where
  "track (Connect chat_id ws accept_ok) f =
     (if accept_ok then f(chat_id := insert ws (f chat_id)) else f)"
| "track (Disconnect chat_id ws) f = f(chat_id := f chat_id - {ws})"

fun tracked :: "op list \<Rightarrow> (chat_id \<Rightarrow> websocket set) \<Rightarrow> (chat_id \<Rightarrow> websocket set)" where
  "tracked [] f = f"
| "tracked (x # xs) f = tracked xs (track x f)"

definition no_connections :: "chat_id \<Rightarrow> websocket set" where
  "no_connections chat_id = {}"

text \<open>The invariant that connects and disconnects keep.\<close>

definition manager_inv :: "manager \<Rightarrow> bool" where
  "manager_inv m \<longleftrightarrow>
     (\<forall>c. rooms m c = None \<longleftrightarrow> redis_tasks m c = None)
     \<and> (\<forall>c s. rooms m c = Some s \<longrightarrow> finite s \<and> s \<noteq> {})
     \<and> map fst (created m) = [0 ..< length (created m)]
     \<and> set (cancelled m) \<subseteq> {0 ..< length (created m)}
     \<and> (\<forall>c. live_tasks m c = (case redis_tasks m c of None \<Rightarrow> [] | Some t \<Rightarrow> [t]))"

subsection \<open>Broadcast\<close>

text \<open>
  \<^verbatim>\<open>broadcast\<close> runs \<^verbatim>\<open>for connection in self.rooms[chat_id]\<close> over the set object
  itself and awaits \<^verbatim>\<open>send_text\<close> in the body, with no \<^verbatim>\<open>try\<close> around it. While the
  loop waits in a send, other coroutines run: \<open>Send_Turn e ops\<close> is one such await, with
  the connects and disconnects \<open>ops\<close> that other coroutines make during it and the
  exception \<open>e\<close> that the await raises, if any.
\<close>

datatype send_turn = Send_Turn "error option" "op list"


text \<open>
  The set object under iteration stays the room's set until a disconnect empties the
  room, which deletes the entry of \<^verbatim>\<open>self.rooms\<close>; a later connect makes a new set.
  \<open>interfere\<close> applies the operations of other coroutines to the manager and keeps the
  flag that says whether the iterated object is still the room's set; \<open>iterated\<close> is
  the content of that object.
\<close>

fun interfere :: "chat_id \<Rightarrow> op list \<Rightarrow> manager \<times> bool \<Rightarrow> manager \<times> bool" where
  "interfere chat_id [] (m, alive) = (m, alive)"
| "interfere chat_id (x # xs) (m, alive) =
     interfere chat_id xs (apply_op x m, alive \<and> rooms (apply_op x m) chat_id \<noteq> None)"

definition iterated :: "chat_id \<Rightarrow> manager \<times> bool \<Rightarrow> websocket set" where
  "iterated chat_id st = (if snd st then members (fst st) chat_id else {})"

text \<open>
  One \<^verbatim>\<open>next()\<close> of the set iterator. It raises \<open>RuntimeError\<close> when the set no longer
  has the size it had when the loop began. Otherwise it walks on through the hash
  table: \<open>next_of yielded cur\<close> is the element it comes to, having yielded \<open>yielded\<close>
  so far, on a set whose content is now \<open>cur\<close>, and \<open>None\<close> when the table is exhausted.
  The walk depends on the layout of the table, so \<open>next_of\<close> is a parameter.
\<close>

definition set_next :: "(websocket list \<Rightarrow> websocket set \<Rightarrow> websocket option) \<Rightarrow> nat
    \<Rightarrow> websocket list \<Rightarrow> websocket set \<Rightarrow> error + websocket option" where
  "set_next next_of n yielded cur =
     (if card cur \<noteq> n then Inl RuntimeError else Inr (next_of yielded cur))"

text \<open>
  The loop of \<^verbatim>\<open>broadcast\<close> over a script of turns: the deliveries made, how the loop
  stands, and the manager with the operations of the other coroutines. The loop itself
  writes nothing to the manager.
\<close>

fun send_loop :: "(websocket list \<Rightarrow> websocket set \<Rightarrow> websocket option) \<Rightarrow> chat_id \<Rightarrow> string
    \<Rightarrow> nat \<Rightarrow> websocket list \<Rightarrow> send_turn list \<Rightarrow> manager \<times> bool
    \<Rightarrow> (websocket \<times> string) list \<times> outcome \<times> manager" where
  "send_loop next_of chat_id message n yielded [] st =
     (case set_next next_of n yielded (iterated chat_id st) of
        Inl e \<Rightarrow> ([], Raised e, fst st)
      | Inr None \<Rightarrow> ([], Returned, fst st)
      | Inr (Some connection) \<Rightarrow> ([], Active, fst st))"
| "send_loop next_of chat_id message n yielded (Send_Turn e ops # turns) st =
     (case set_next next_of n yielded (iterated chat_id st) of
        Inl e' \<Rightarrow> ([], Raised e', fst st)
      | Inr None \<Rightarrow> ([], Returned, fst st)
      | Inr (Some connection) \<Rightarrow>
          (case e of
             Some x \<Rightarrow> ([], Raised x, fst (interfere chat_id ops st))
           | None \<Rightarrow>
               (case send_loop next_of chat_id message n (yielded @ [connection]) turns
                       (interfere chat_id ops st) of
                  (sent, out, m') \<Rightarrow> ((connection, message) # sent, out, m'))))"

definition broadcast :: "(websocket list \<Rightarrow> websocket set \<Rightarrow> websocket option) \<Rightarrow> chat_id
    \<Rightarrow> string \<Rightarrow> send_turn list \<Rightarrow> manager
    \<Rightarrow> (websocket \<times> string) list \<times> outcome \<times> manager" where
  "broadcast next_of chat_id message turns m =
     (case rooms m chat_id of
        None \<Rightarrow> ([], Returned, m)
      | Some s \<Rightarrow> send_loop next_of chat_id message (card s) [] turns (m, True))"



text \<open>
  An iterator for the evaluations: it walks the elements in rising order, by position.
\<close>

definition in_order :: "websocket list \<Rightarrow> websocket set \<Rightarrow> websocket option" where
  "in_order yielded cur =
     (case drop (length yielded) (sorted_list_of_set cur) of
        [] \<Rightarrow> None
      | connection # _ \<Rightarrow> Some connection)"

section \<open>The database session\<close>

text \<open>
  Modelled from the spec: \<^verbatim>\<open>app/models.py\<close> (the classes \<^verbatim>\<open>User\<close>, \<^verbatim>\<open>Chat\<close> and
  \<^verbatim>\<open>Message\<close>) is not among the sources. The spec's data model gives a message an
  identifier, a room identifier, a sender, a content and a timestamp, and a room an
  identifier and its participant identities; the router reads and writes exactly these
  attributes. Identifiers and timestamps are assigned by the store when a row is
  written, so the model takes them from the environment. A timestamp is an integer
  (a count of clock ticks).
\<close>

record message =
  msg_id :: nat
  msg_chat_id :: chat_id
  sender :: string
  content :: string
  timestamp :: int

record chat =
  chat_ident :: chat_id
  name :: string
  participants :: "string list"

text \<open>
  The token's claims that the router reads: \<^verbatim>\<open>user["sub"]\<close> and
  \<^verbatim>\<open>user["preferred_username"]\<close>.
\<close>

record claims =
  sub :: string
  preferred_username :: string

text \<open>
  The tables: users by primary key (identifier to username), chats and messages in the
  order they were inserted.
\<close>

record db =
  users :: "string \<rightharpoonup> string"
  chats :: "chat list"
  messages :: "message list"

text \<open>
  Modelled from the spec: the relationship \<^verbatim>\<open>User.chats\<close> of the absent
  \<^verbatim>\<open>app/models.py\<close>, as the rooms that list the identity among their participants;
  \<open>user_chats\<close> is \<^verbatim>\<open>[chat.id for chat in user_db.chats]\<close>.
\<close>

definition user_chats :: "db \<Rightarrow> string \<Rightarrow> chat_id list" where
  "user_chats d uid = map chat_ident (filter (\<lambda>ch. uid \<in> set (participants ch)) (chats d))"

section \<open>The WebSocket endpoint\<close>

text \<open>
  The dictionary with the keys \<^verbatim>\<open>id\<close>, \<^verbatim>\<open>sender\<close>, \<^verbatim>\<open>content\<close> and
  \<^verbatim>\<open>timestamp\<close>, built for the broker and for the history response. Its encoding
  (\<^verbatim>\<open>json.dumps\<close>, \<^verbatim>\<open>isoformat\<close>) is left abstract.
\<close>

record payload =
  p_id :: nat
  p_sender :: string
  p_content :: string
  p_timestamp :: int

definition payload_of :: "message \<Rightarrow> payload" where
  "payload_of msg =
     \<lparr>p_id = msg_id msg, p_sender = sender msg, p_content = content msg,
      p_timestamp = timestamp msg\<rparr>"

definition channel :: "chat_id \<Rightarrow> string" where
  "channel chat_id = ''chat_channel:'' @ chat_id"

text \<open>
  What the endpoint does to the outside, in order: closing the socket with a code,
  subscribing a pubsub handle to a channel, calling the manager's \<^verbatim>\<open>connect\<close> and
  \<^verbatim>\<open>disconnect\<close>, a commit that stored a message, a publish that the broker took.
\<close>

datatype event =
    Close nat
  | Subscribe string
  | Register chat_id websocket
  | Deregister chat_id websocket
  | Commit message
  | Publish string payload

text \<open>
  \<^verbatim>\<open>websocket.close()\<close> without an argument: Starlette's \<^verbatim>\<open>WebSocket.close\<close> has the
  default \<^verbatim>\<open>code=1000\<close> (normal closure).
\<close>

definition default_close_code :: nat where
  "default_close_code = 1000"

text \<open>
  One turn of the \<^verbatim>\<open>while True\<close> loop, as the environment decides it: either
  \<^verbatim>\<open>receive_text\<close> raises, or it returns a text, after which \<^verbatim>\<open>db.commit()\<close> raises or
  stores the message under an identifier and a timestamp, after which
  \<^verbatim>\<open>redis.publish\<close> raises or succeeds. Cancellation is \<open>CancelledError\<close> raised at
  any of the three awaits.
\<close>

datatype io =
    Receive_Raises error
  | Frame string "error + nat \<times> int" "error option"

text \<open>
  The handler of the \<^verbatim>\<open>try\<close> statement: \<^verbatim>\<open>except WebSocketDisconnect\<close> calls
  \<^verbatim>\<open>manager.disconnect\<close>; any other exception leaves the endpoint as it is.
\<close>

definition on_exception :: "chat_id \<Rightarrow> websocket \<Rightarrow> error \<Rightarrow> manager
    \<Rightarrow> event list \<times> outcome \<times> manager" where
  "on_exception chat_id ws e m =
     (if e = WebSocketDisconnect
      then (case disconnect chat_id ws m of
              (None, m') \<Rightarrow> ([Deregister chat_id ws], Returned, m')
            | (Some e', m') \<Rightarrow> ([Deregister chat_id ws], Raised e', m'))
      else ([], Raised e, m))"

text \<open>
  The loop of the endpoint over a script of turns. The manager is the registry as this
  connection sees it; it is read only by the handler.
\<close>

fun ingress :: "chat_id \<Rightarrow> claims \<Rightarrow> websocket \<Rightarrow> io list \<Rightarrow> manager \<Rightarrow> db
    \<Rightarrow> event list \<times> outcome \<times> manager \<times> db" where
  "ingress chat_id user ws [] m d = ([], Active, m, d)"
| "ingress chat_id user ws (Receive_Raises e # rest) m d =
     (case on_exception chat_id ws e m of (evs, out, m') \<Rightarrow> (evs, out, m', d))"
| "ingress chat_id user ws (Frame data commit publish # rest) m d =
     (case commit of
        Inl e \<Rightarrow> (case on_exception chat_id ws e m of (evs, out, m') \<Rightarrow> (evs, out, m', d))
      | Inr (i, ts) \<Rightarrow>
          let message = \<lparr>msg_id = i, msg_chat_id = chat_id, sender = preferred_username user,
                          content = data, timestamp = ts\<rparr>;
              d' = d\<lparr>messages := messages d @ [message]\<rparr>;
              payload = \<lparr>p_id = msg_id message, p_sender = sender message, p_content = data,
                          p_timestamp = timestamp message\<rparr>
          in (case publish of
                Some e \<Rightarrow>
                  (case on_exception chat_id ws e m of
                     (evs, out, m') \<Rightarrow> (Commit message # evs, out, m', d'))
              | None \<Rightarrow>
                  (case ingress chat_id user ws rest m d' of
                     (evs, out, m', d'') \<Rightarrow>
                       (Commit message # Publish (channel chat_id) payload # evs, out, m', d''))))"

text \<open>
  \<^verbatim>\<open>chat_endpoint\<close>. \<open>verify_token\<close> is the JWT check of \<^verbatim>\<open>app/auth.py\<close>: \<open>None\<close>
  where it raises its \<^verbatim>\<open>HTTPException\<close>, the decoded claims otherwise. An empty token
  is falsy in Python, so it is treated as a missing one. The connection to Redis, the
  subscription and the membership query are taken to succeed; \<open>accept_ok\<close> and the
  script \<open>ios\<close> decide the accept and the turns of the loop.
\<close>

definition chat_endpoint :: "(string \<Rightarrow> claims option) \<Rightarrow> websocket \<Rightarrow> chat_id \<Rightarrow> string option
    \<Rightarrow> bool \<Rightarrow> io list \<Rightarrow> manager \<Rightarrow> db \<Rightarrow> event list \<times> outcome \<times> manager \<times> db" where
  "chat_endpoint verify_token ws chat_id token accept_ok ios m d =
     (case token of
        None \<Rightarrow> ([Close 1008], Returned, m, d)
      | Some t \<Rightarrow>
          if t = [] then ([Close 1008], Returned, m, d)
          else
            (case verify_token t of
               None \<Rightarrow> ([Close 1008], Returned, m, d)
             | Some user \<Rightarrow>
                 if users d (sub user) = None \<or> chat_id \<notin> set (user_chats d (sub user))
                 then ([Subscribe (channel chat_id), Close default_close_code], Returned, m, d)
                 else
                   (case connect chat_id ws accept_ok m of
                      (Some e, m') \<Rightarrow> ([Subscribe (channel chat_id)], Raised e, m', d)
                    | (None, m') \<Rightarrow>
                        (case ingress chat_id user ws ios m' d of
                           (evs, out, m'', d') \<Rightarrow>
                             (Subscribe (channel chat_id) # Register chat_id ws # evs,
                              out, m'', d')))))"

text \<open>
  \<^verbatim>\<open>listen_to_redis\<close>: the task subscribes to the room's channel, then broadcasts the
  data of every pubsub message of type \<^verbatim>\<open>message\<close>. An exception from \<^verbatim>\<open>broadcast\<close>
  is not caught, so it ends the task. The script lists the pubsub messages: type, data,
  the manager as it stands when the message arrives, and the turns of its broadcast.
\<close>

fun listen :: "(websocket list \<Rightarrow> websocket set \<Rightarrow> websocket option) \<Rightarrow> chat_id
    \<Rightarrow> (string \<times> string \<times> manager \<times> send_turn list) list
    \<Rightarrow> (websocket \<times> string) list \<times> outcome" where
  "listen next_of chat_id [] = ([], Active)"
| "listen next_of chat_id ((ty, data, m, turns) # rest) =
     (if ty = ''message''
      then (case broadcast next_of chat_id data turns m of
              (sent, Returned, _) \<Rightarrow>
                (case listen next_of chat_id rest of (sent', out) \<Rightarrow> (sent @ sent', out))
            | (sent, out, _) \<Rightarrow> (sent, out))
      else listen next_of chat_id rest)"

definition listen_to_redis :: "(websocket list \<Rightarrow> websocket set \<Rightarrow> websocket option) \<Rightarrow> chat_id
    \<Rightarrow> (string \<times> string \<times> manager \<times> send_turn list) list
    \<Rightarrow> event list \<times> (websocket \<times> string) list \<times> outcome" where
  "listen_to_redis next_of chat_id msgs =
     (case listen next_of chat_id msgs of
        (sent, out) \<Rightarrow> ([Subscribe (channel chat_id)], sent, out))"

text \<open>
  The subscriptions a list of events leaves on a channel. No path of the router
  unsubscribes or closes a pubsub handle, so every \<open>Subscribe\<close> of a run that has not
  ended counts.
\<close>

definition subscriptions :: "string \<Rightarrow> event list \<Rightarrow> nat" where
  "subscriptions ch evs = length (filter (\<lambda>e. e = Subscribe ch) evs)"

definition close_codes :: "event list \<Rightarrow> nat list" where
  "close_codes evs = concat (map (\<lambda>e. case e of Close c \<Rightarrow> [c] | _ \<Rightarrow> []) evs)"

definition deregistrations :: "event list \<Rightarrow> nat" where
  "deregistrations evs = length (filter (\<lambda>e. case e of Deregister _ _ \<Rightarrow> True | _ \<Rightarrow> False) evs)"

definition published :: "event list \<Rightarrow> (string \<times> payload) list" where
  "published evs = concat (map (\<lambda>e. case e of Publish ch p \<Rightarrow> [(ch, p)] | _ \<Rightarrow> []) evs)"

text \<open>
  Persist-before-publish as a property of a trace: reading the events in order, every
  \<open>Publish\<close> carries the payload of a message whose \<open>Commit\<close> came earlier, on the
  channel of that message's room. \<open>seen\<close> is the list of messages committed so far.
\<close>

fun persisted_first :: "message list \<Rightarrow> event list \<Rightarrow> bool" where
  "persisted_first seen [] = True"
| "persisted_first seen (Commit msg # evs) = persisted_first (msg # seen) evs"
| "persisted_first seen (Publish ch p # evs) =
     ((ch, p) \<in> set (map (\<lambda>msg. (channel (msg_chat_id msg), payload_of msg)) seen)
      \<and> persisted_first seen evs)"
| "persisted_first seen (e # evs) = persisted_first seen evs"

section \<open>The HTTP routes\<close>

text \<open>
  \<^verbatim>\<open>order_by(Message.timestamp.desc())\<close>: rows by falling timestamp. The database
  leaves the order of rows with equal timestamps open; the model keeps them in
  insertion order.
\<close>

definition order_by_timestamp_desc :: "message list \<Rightarrow> message list" where
  "order_by_timestamp_desc ms = sort_key (\<lambda>msg. - timestamp msg) ms"

definition room_messages :: "chat_id \<Rightarrow> db \<Rightarrow> message list" where
  "room_messages chat_id d = filter (\<lambda>msg. msg_chat_id msg = chat_id) (messages d)"

text \<open>
  \<^verbatim>\<open>get_chat_history\<close>. The query's \<^verbatim>\<open>LIMIT\<close> is the caller's integer as it comes,
  bound as a parameter of PostgreSQL's type \<^verbatim>\<open>int8\<close> (the backend of
  \<^verbatim>\<open>app/database.py\<close> is \<^verbatim>\<open>postgresql+asyncpg\<close>): the driver cannot bind a value from
  \<open>2 ^ 63\<close> on, and the database rejects a negative one. Both are the \<open>DbError\<close>
  branch. An empty result raises the 404.
\<close>

definition limit_bound :: int where
  "limit_bound = 2 ^ 63"

definition get_chat_history :: "chat_id \<Rightarrow> int \<Rightarrow> db \<Rightarrow> error + payload list" where
  "get_chat_history chat_id limit d =
     (if limit < 0 \<or> limit_bound \<le> limit then Inl DbError
      else
        let msgs = take (nat limit) (order_by_timestamp_desc (room_messages chat_id d))
        in if msgs = [] then Inl (HTTPException 404) else Inr (map payload_of msgs))"

text \<open>
  The route \<^verbatim>\<open>GET /api/chat/chats/{chat_id}/messages\<close> as a request meets it: the
  bearer token the request may carry, the path's chat id, the query's \<^verbatim>\<open>limit\<close> with
  its default of 50. The signature of \<^verbatim>\<open>get_chat_history\<close> has no dependency on
  \<^verbatim>\<open>get_current_user\<close> or \<^verbatim>\<open>verify_token\<close>, so the token is not looked at.
\<close>

definition get_chat_history_route :: "string option \<Rightarrow> chat_id \<Rightarrow> int option \<Rightarrow> db
    \<Rightarrow> error + payload list" where
  "get_chat_history_route bearer chat_id limit d =
     get_chat_history chat_id (case limit of None \<Rightarrow> 50 | Some l \<Rightarrow> l) d"

text \<open>
  \<^verbatim>\<open>create_chat\<close>. \<open>user\<close> is the value of the dependency \<^verbatim>\<open>get_current_user\<close> (the
  caller's claims), \<open>userId\<close> the field of the request body, and \<open>d\<close> the session as the
  two \<^verbatim>\<open>select\<close> statements find it. \<open>new_id\<close> is the identifier that the absent
  \<^verbatim>\<open>Chat\<close> model gives the new row; the commit fails on a primary key that exists.
  The response is the pair of \<^verbatim>\<open>message\<close> and \<^verbatim>\<open>chat_id\<close>.
\<close>

definition create_chat :: "chat_id \<Rightarrow> string \<Rightarrow> claims \<Rightarrow> db \<Rightarrow> (error + string \<times> chat_id) \<times> db" where
  "create_chat new_id userId user d =
     (let participant = userId;
          chat = \<lparr>chat_ident = new_id, name = [], participants = []\<rparr>;
          user_db = users d (sub user);
          user_2 = users d participant
      in if user_db = None \<or> user_2 = None then (Inl (HTTPException 400), d)
         else
           let chat1 = chat\<lparr>participants := participants chat @ [sub user]\<rparr>;
               chat2 = chat1\<lparr>participants := participants chat1 @ [participant]\<rparr>
           in if new_id \<in> set (map chat_ident (chats d)) then (Inl DbError, d)
              else (Inr (''Chat created'', chat_ident chat2), d\<lparr>chats := chats d @ [chat2]\<rparr>))"

text \<open>
  \<^verbatim>\<open>get_current_user\<close> of \<^verbatim>\<open>app/auth.py\<close>, the dependency of \<^verbatim>\<open>create_chat\<close>. A
  request without a bearer token, or with one that \<^verbatim>\<open>verify_token\<close> refuses, gets the
  401. A caller who is not in the users table is added to the session with
  \<^verbatim>\<open>db.add\<close>. The session is the one of the handler (one \<^verbatim>\<open>get_db\<close> for the request)
  and flushes what was added before its next query (\<^verbatim>\<open>SessionLocal\<close> keeps the
  default \<^verbatim>\<open>autoflush\<close>), so the handler's selects find the caller.
\<close>

definition get_current_user :: "(string \<Rightarrow> claims option) \<Rightarrow> string option \<Rightarrow> db
    \<Rightarrow> (error + claims) \<times> db" where
  "get_current_user verify_token bearer d =
     (case bearer of
        None \<Rightarrow> (Inl (HTTPException 401), d)
      | Some token \<Rightarrow>
          (case verify_token token of
             None \<Rightarrow> (Inl (HTTPException 401), d)
           | Some user \<Rightarrow>
               (case users d (sub user) of
                  None \<Rightarrow>
                    (Inr user, d\<lparr>users := (users d)(sub user \<mapsto> preferred_username user)\<rparr>)
                | Some _ \<Rightarrow> (Inr user, d))))"

text \<open>
  The route \<^verbatim>\<open>POST /api/chat/chats/\<close>: the dependency, then the handler on the session
  the dependency leaves. Only the handler's \<^verbatim>\<open>db.commit()\<close> makes the session's
  changes last: a request that ends in an exception leaves the database as it was.
\<close>

definition create_chat_route :: "(string \<Rightarrow> claims option) \<Rightarrow> string option \<Rightarrow> chat_id \<Rightarrow> string
    \<Rightarrow> db \<Rightarrow> (error + string \<times> chat_id) \<times> db" where
  "create_chat_route verify_token bearer new_id userId d =
     (case get_current_user verify_token bearer d of
        (Inl e, _) \<Rightarrow> (Inl e, d)
      | (Inr user, session) \<Rightarrow>
          (case create_chat new_id userId user session of
             (Inl e, _) \<Rightarrow> (Inl e, d)
           | (Inr response, session') \<Rightarrow> (Inr response, session')))"

text \<open>Newest first: along the list the timestamps never rise.\<close>

definition newest_first :: "payload list \<Rightarrow> bool" where
  "newest_first items = sorted_wrt (\<lambda>a b. p_timestamp b \<le> p_timestamp a) items"

section \<open>A small deployment\<close>

text \<open>
  Three identities with their tokens, and a database in which the room \<open>r1\<close> lists the
  first two of them. The evaluations below run the router on this deployment.
  \<open>demo_history_db\<close> adds messages; \<open>demo_newcomer_db\<close> knows the second identity only.
\<close>

definition alice :: claims where
  "alice = \<lparr>sub = ''u1'', preferred_username = ''alice''\<rparr>"

definition bob :: claims where
  "bob = \<lparr>sub = ''u2'', preferred_username = ''bob''\<rparr>"

definition mallory :: claims where
  "mallory = \<lparr>sub = ''u9'', preferred_username = ''mallory''\<rparr>"

definition demo_verify :: "string \<Rightarrow> claims option" where
  "demo_verify t =
     (if t = ''token-alice'' then Some alice
      else if t = ''token-bob'' then Some bob
      else if t = ''token-mallory'' then Some mallory
      else None)"

definition demo_db :: db where
  "demo_db =
     \<lparr>users = [''u1'' \<mapsto> ''alice'', ''u2'' \<mapsto> ''bob'', ''u9'' \<mapsto> ''mallory''],
      chats = [\<lparr>chat_ident = ''r1'', name = [], participants = [''u1'', ''u2'']\<rparr>],
      messages = []\<rparr>"

definition demo_history_db :: db where
  "demo_history_db =
     \<lparr>users = [''u1'' \<mapsto> ''alice'', ''u2'' \<mapsto> ''bob'', ''u9'' \<mapsto> ''mallory''],
      chats = [\<lparr>chat_ident = ''r1'', name = [], participants = [''u1'', ''u2'']\<rparr>],
      messages =
        [\<lparr>msg_id = 1, msg_chat_id = ''r1'', sender = ''alice'', content = ''a'', timestamp = 100\<rparr>,
         \<lparr>msg_id = 2, msg_chat_id = ''r1'', sender = ''bob'', content = ''b'', timestamp = 300\<rparr>,
         \<lparr>msg_id = 3, msg_chat_id = ''r2'', sender = ''bob'', content = ''c'', timestamp = 250\<rparr>,
         \<lparr>msg_id = 4, msg_chat_id = ''r1'', sender = ''alice'', content = ''d'', timestamp = 200\<rparr>]\<rparr>"

definition demo_newcomer_db :: db where
  "demo_newcomer_db = \<lparr>users = [''u2'' \<mapsto> ''bob''], chats = [], messages = []\<rparr>"

lemmas demo_defs = alice_def bob_def mallory_def demo_verify_def demo_db_def

section \<open>The registry keeps one listener per occupied room\<close>

lemma manager_inv_init: "manager_inv init_manager"
  by (simp add: manager_inv_def init_manager_def live_tasks_def)

lemma inv_tasks_of_rooms:
  "manager_inv m \<Longrightarrow> (rooms m c = None) = (redis_tasks m c = None)"
  by (simp add: manager_inv_def)

lemma inv_room_nonempty: "manager_inv m \<Longrightarrow> rooms m c = Some s \<Longrightarrow> finite s \<and> s \<noteq> {}"
  by (simp add: manager_inv_def)

lemma inv_live: "manager_inv m \<Longrightarrow>
    live_tasks m c = (case redis_tasks m c of None \<Rightarrow> [] | Some t \<Rightarrow> [t])"
  by (simp add: manager_inv_def)

lemma inv_created: "manager_inv m \<Longrightarrow> map fst (created m) = [0 ..< length (created m)]"
  by (simp add: manager_inv_def)

lemma inv_cancelled: "manager_inv m \<Longrightarrow> t \<in> set (cancelled m) \<Longrightarrow> t < length (created m)"
  by (auto simp: manager_inv_def)

lemma live_tasks_mem:
  "t \<in> set (live_tasks m c) \<longleftrightarrow> (t, c) \<in> set (created m) \<and> t \<notin> set (cancelled m)"
  by (force simp: live_tasks_def)

lemma inv_task_created:
  assumes "manager_inv m" "redis_tasks m c = Some t"
  shows "(t, c) \<in> set (created m) \<and> t \<notin> set (cancelled m) \<and> t < length (created m)"
proof -
  have "t \<in> set (live_tasks m c)" using assms by (simp add: inv_live)
  then have a: "(t, c) \<in> set (created m) \<and> t \<notin> set (cancelled m)" by (simp add: live_tasks_mem)
  then have "t \<in> set (map fst (created m))" by force
  then have "t < length (created m)" using inv_created [OF assms(1)] by simp
  with a show ?thesis by simp
qed

lemma inv_task_inj:
  assumes "manager_inv m" "redis_tasks m c = Some t" "redis_tasks m c' = Some t"
  shows "c = c'"
proof -
  have d: "distinct (map fst (created m))" using inv_created [OF assms(1)] by simp
  have "(t, c) \<in> set (created m)" "(t, c') \<in> set (created m)"
    using inv_task_created assms by blast+
  with d show ?thesis by (rule eq_key_imp_eq_value)
qed

lemma live_tasks_rooms [simp]: "live_tasks (m\<lparr>rooms := r\<rparr>) c = live_tasks m c"
  by (simp add: live_tasks_def)

lemma live_tasks_redis [simp]: "live_tasks (m\<lparr>redis_tasks := r\<rparr>) c = live_tasks m c"
  by (simp add: live_tasks_def)

lemma live_tasks_create:
  assumes "created m' = created m @ [(t, c)]" "cancelled m' = cancelled m"
  shows "live_tasks m' c' =
     live_tasks m c' @ (if c = c' \<and> t \<notin> set (cancelled m) then [t] else [])"
  using assms by (simp add: live_tasks_def)

lemma live_tasks_cancel:
  assumes "created m' = created m" "cancelled m' = cancelled m @ [t]"
  shows "live_tasks m' c = filter (\<lambda>x. x \<noteq> t) (live_tasks m c)"
  using assms
  by (auto simp: live_tasks_def filter_map comp_def intro!: arg_cong [where f = "map fst"] filter_cong)

lemma connect_fail [simp]: "connect c ws False m = (Some TransportError, m)"
  by (simp add: connect_def)

lemma connect_new_room:
  assumes "rooms m c = None" "redis_tasks m c = None"
  shows "connect c ws True m =
    (None, m\<lparr>rooms := (rooms m)(c \<mapsto> {ws}),
             redis_tasks := (redis_tasks m)(c \<mapsto> length (created m)),
             created := created m @ [(length (created m), c)]\<rparr>)"
  using assms by (simp add: connect_def Let_def dom_def)

lemma connect_old_room:
  assumes "rooms m c = Some s" "redis_tasks m c = Some t"
  shows "connect c ws True m = (None, m\<lparr>rooms := (rooms m)(c \<mapsto> insert ws s)\<rparr>)"
  using assms by (simp add: connect_def Let_def dom_def)

lemma disconnect_no_room: "rooms m c = None \<Longrightarrow> disconnect c ws m = (None, m)"
  by (simp add: disconnect_def)

lemma disconnect_stay:
  assumes "rooms m c = Some s" "s - {ws} \<noteq> {}"
  shows "disconnect c ws m = (None, m\<lparr>rooms := (rooms m)(c \<mapsto> s - {ws})\<rparr>)"
  using assms by (simp add: disconnect_def Let_def)

lemma disconnect_last:
  assumes "rooms m c = Some s" "s - {ws} = {}" "redis_tasks m c = Some t"
  shows "disconnect c ws m =
    (None, m\<lparr>rooms := (rooms m)(c := None), cancelled := cancelled m @ [t],
             redis_tasks := (redis_tasks m)(c := None)\<rparr>)"
  using assms by (simp add: disconnect_def Let_def)

lemma manager_inv_connect:
  assumes inv: "manager_inv m"
  shows "manager_inv (snd (connect c ws ok m))"
proof (cases ok)
  case False
  then show ?thesis using inv by simp
next
  case True
  show ?thesis
  proof (cases "rooms m c")
    case None
    then have rt: "redis_tasks m c = None" using inv_tasks_of_rooms [OF inv, of c] by simp
    have fresh: "length (created m) \<notin> set (cancelled m)"
      using inv_cancelled [OF inv] by blast
    show ?thesis
      using inv rt fresh True
      by (auto simp: connect_new_room [OF None rt] manager_inv_def live_tasks_create [where m = m])
  next
    case (Some s)
    then have "redis_tasks m c \<noteq> None" using inv_tasks_of_rooms [OF inv, of c] by simp
    then obtain t where rt: "redis_tasks m c = Some t" by auto
    show ?thesis
      using inv Some True rt
      by (simp add: connect_old_room [OF Some rt] manager_inv_def)
  qed
qed

lemma manager_inv_disconnect:
  assumes inv: "manager_inv m"
  shows "manager_inv (snd (disconnect c ws m))"
proof (cases "rooms m c")
  case None
  then show ?thesis using inv by (simp add: disconnect_no_room)
next
  case (Some s)
  then have "redis_tasks m c \<noteq> None" using inv_tasks_of_rooms [OF inv, of c] by simp
  then obtain t where rt: "redis_tasks m c = Some t" by auto
  show ?thesis
  proof (cases "s - {ws} = {}")
    case False
    show ?thesis
      using inv Some False rt
      by (simp add: disconnect_stay [OF Some False] manager_inv_def)
  next
    case True
    have tlt: "t < length (created m)" using inv_task_created [OF inv rt] by simp
    have other: "redis_tasks m c' \<noteq> Some t" if "c' \<noteq> c" for c'
      using inv_task_inj [OF inv _ rt] that by blast
    have live: "created m' = created m \<Longrightarrow> cancelled m' = cancelled m @ [t] \<Longrightarrow> live_tasks m' c' =
        (case ((redis_tasks m)(c := None)) c' of None \<Rightarrow> [] | Some t \<Rightarrow> [t])" for c' m'
      using other [of c'] rt
      by (auto simp: live_tasks_cancel inv_live [OF inv] split: option.splits)
    show ?thesis
      using inv tlt live
      by (simp add: disconnect_last [OF Some True rt] manager_inv_def)
  qed
qed

lemma manager_inv_run: "manager_inv m \<Longrightarrow> manager_inv (run ops m)"
proof (induction ops arbitrary: m)
  case Nil
  then show ?case by simp
next
  case (Cons x xs)
  then show ?case
    by (cases x) (simp_all add: manager_inv_connect manager_inv_disconnect)
qed

lemma conn_count_pos:
  assumes "manager_inv m"
  shows "0 < conn_count m c \<longleftrightarrow> rooms m c \<noteq> None"
proof (cases "rooms m c")
  case None
  then show ?thesis by (simp add: conn_count_def)
next
  case (Some s)
  then show ?thesis
    using inv_room_nonempty [OF assms Some] by (simp add: conn_count_def card_gt_0_iff)
qed

lemma manager_inv_reachable: "manager_inv (run ops init_manager)"
  by (simp add: manager_inv_run manager_inv_init)


lemma members_apply_op: "members (apply_op x m) = track x (members m)"
proof (cases x)
  case (Connect c ws ok)
  then show ?thesis
    by (auto simp: members_def connect_def Let_def dom_def fun_eq_iff split: option.splits)
next
  case (Disconnect c ws)
  then show ?thesis
    by (auto simp: members_def disconnect_def Let_def fun_eq_iff split: option.splits)
qed

lemma members_run: "members (run ops m) = tracked ops (members m)"
  by (induction ops arbitrary: m) (simp_all add: members_apply_op)

lemma members_init: "members init_manager = no_connections"
  by (simp add: members_def init_manager_def no_connections_def fun_eq_iff)

lemma rooms_members:
  assumes "manager_inv m"
  shows "rooms m c = (if members m c = {} then None else Some (members m c))"
  using inv_room_nonempty [OF assms, of c]
  by (cases "rooms m c") (simp_all add: members_def)

text \<open>
  Claim C7. After every sequence of connects and disconnects, starting from the empty
  manager, the set stored for a room is the set that the operations alone give
  (\<open>tracked\<close>: each accepted connect added, each disconnect removed), so the connection
  count is the number of connections registered and not since unregistered. A room has
  a listener task exactly when that count is positive: this holds of the entry of
  \<open>redis_tasks\<close> and of the tasks created and not cancelled, of which the entry is the
  only one. From such a state each operation does this and nothing else. A connect
  whose accept fails changes nothing. A connect to a room without connections stores
  the set of this one connection and a newly created task; a connect to an occupied
  room adds the connection and touches no task. A disconnect that leaves a connection
  in the room removes the one connection and touches no task; the disconnect of the
  last connection deletes the room, cancels the stored task and removes it, leaving the
  room without a live task; the next connect stores a task that differs from the
  cancelled one and is the room's only live task.
\<close>

theorem listener_iff_connected:
  assumes m: "m = run ops init_manager"
  shows "members m c = tracked ops no_connections c
    \<and> finite (members m c)
    \<and> conn_count m c = card (tracked ops no_connections c)
    \<and> rooms m c = (if members m c = {} then None else Some (members m c))
    \<and> ((\<exists>t. redis_tasks m c = Some t) \<longleftrightarrow> 0 < conn_count m c)
    \<and> live_tasks m c = (case redis_tasks m c of None \<Rightarrow> [] | Some t \<Rightarrow> [t])
    \<and> (live_tasks m c \<noteq> [] \<longleftrightarrow> 0 < conn_count m c)
    \<and> connect c ws False m = (Some TransportError, m)
    \<and> (members m c = {} \<longrightarrow>
          connect c ws True m =
            (None, m\<lparr>rooms := (rooms m)(c \<mapsto> {ws}),
                     redis_tasks := (redis_tasks m)(c \<mapsto> length (created m)),
                     created := created m @ [(length (created m), c)]\<rparr>)
        \<and> live_tasks (snd (connect c ws True m)) c = [length (created m)]
        \<and> disconnect c ws m = (None, m))
    \<and> (members m c \<noteq> {} \<longrightarrow>
          connect c ws True m = (None, m\<lparr>rooms := (rooms m)(c \<mapsto> insert ws (members m c))\<rparr>))
    \<and> (members m c - {ws} \<noteq> {} \<longrightarrow>
          disconnect c ws m = (None, m\<lparr>rooms := (rooms m)(c \<mapsto> members m c - {ws})\<rparr>))
    \<and> (members m c = {ws} \<longrightarrow>
          (\<exists>t. redis_tasks m c = Some t
             \<and> disconnect c ws m =
                 (None, m\<lparr>rooms := (rooms m)(c := None), cancelled := cancelled m @ [t],
                          redis_tasks := (redis_tasks m)(c := None)\<rparr>)
             \<and> live_tasks (snd (disconnect c ws m)) c = []
             \<and> (\<exists>t'. redis_tasks (snd (connect c ws' True (snd (disconnect c ws m)))) c = Some t'
                   \<and> t' \<noteq> t
                   \<and> live_tasks (snd (connect c ws' True (snd (disconnect c ws m)))) c = [t'])))"
proof -
  have inv: "manager_inv m" using m by (simp add: manager_inv_reachable)
  have mem: "members m c = tracked ops no_connections c"
    using m by (simp add: members_run members_init)
  have rm: "rooms m c = (if members m c = {} then None else Some (members m c))"
    by (rule rooms_members [OF inv])
  have fin: "finite (members m c)"
    using inv_room_nonempty [OF inv, of c] by (cases "rooms m c") (simp_all add: members_def)
  have cnt: "conn_count m c = card (tracked ops no_connections c)"
    using mem by (simp add: conn_count_def members_def split: option.splits)
  have a: "(\<exists>t. redis_tasks m c = Some t) \<longleftrightarrow> 0 < conn_count m c"
    using conn_count_pos [OF inv, of c] inv_tasks_of_rooms [OF inv, of c] by auto
  have l: "live_tasks m c = (case redis_tasks m c of None \<Rightarrow> [] | Some t \<Rightarrow> [t])"
    by (rule inv_live [OF inv])
  have b: "live_tasks m c \<noteq> [] \<longleftrightarrow> 0 < conn_count m c"
    using a by (auto simp: l split: option.splits)
  have f: "connect c ws False m = (Some TransportError, m)" by simp
  have e: "connect c ws True m =
            (None, m\<lparr>rooms := (rooms m)(c \<mapsto> {ws}),
                     redis_tasks := (redis_tasks m)(c \<mapsto> length (created m)),
                     created := created m @ [(length (created m), c)]\<rparr>)
        \<and> live_tasks (snd (connect c ws True m)) c = [length (created m)]
        \<and> disconnect c ws m = (None, m)"
    if z: "members m c = {}"
  proof -
    have r: "rooms m c = None" using rm z by simp
    then have t: "redis_tasks m c = None" using inv_tasks_of_rooms [OF inv, of c] by simp
    have "manager_inv (snd (connect c ws True m))" by (rule manager_inv_connect [OF inv])
    from inv_live [OF this, of c] show ?thesis
      by (simp add: connect_new_room [OF r t] disconnect_no_room [OF r])
  qed
  have o: "connect c ws True m = (None, m\<lparr>rooms := (rooms m)(c \<mapsto> insert ws (members m c))\<rparr>)"
    if nz: "members m c \<noteq> {}"
  proof -
    have r: "rooms m c = Some (members m c)" using rm nz by simp
    then have "redis_tasks m c \<noteq> None" using inv_tasks_of_rooms [OF inv, of c] by simp
    then obtain t where t: "redis_tasks m c = Some t" by auto
    show ?thesis by (rule connect_old_room [OF r t])
  qed
  have s: "disconnect c ws m = (None, m\<lparr>rooms := (rooms m)(c \<mapsto> members m c - {ws})\<rparr>)"
    if nz: "members m c - {ws} \<noteq> {}"
  proof -
    have "members m c \<noteq> {}" using nz by auto
    then have r: "rooms m c = Some (members m c)" using rm by simp
    show ?thesis by (rule disconnect_stay [OF r nz])
  qed
  have d: "\<exists>t. redis_tasks m c = Some t
             \<and> disconnect c ws m =
                 (None, m\<lparr>rooms := (rooms m)(c := None), cancelled := cancelled m @ [t],
                          redis_tasks := (redis_tasks m)(c := None)\<rparr>)
             \<and> live_tasks (snd (disconnect c ws m)) c = []
             \<and> (\<exists>t'. redis_tasks (snd (connect c ws' True (snd (disconnect c ws m)))) c = Some t'
                   \<and> t' \<noteq> t
                   \<and> live_tasks (snd (connect c ws' True (snd (disconnect c ws m)))) c = [t'])"
    if one: "members m c = {ws}"
  proof -
    have r: "rooms m c = Some {ws}" using rm one by simp
    then have "redis_tasks m c \<noteq> None" using inv_tasks_of_rooms [OF inv, of c] by simp
    then obtain t where t: "redis_tasks m c = Some t" by auto
    define m' where "m' = snd (disconnect c ws m)"
    have e: "{ws} - {ws} = ({}::websocket set)" by simp
    have dl: "disconnect c ws m =
        (None, m\<lparr>rooms := (rooms m)(c := None), cancelled := cancelled m @ [t],
                 redis_tasks := (redis_tasks m)(c := None)\<rparr>)"
      by (rule disconnect_last [OF r e t])
    have m': "m' = m\<lparr>rooms := (rooms m)(c := None), cancelled := cancelled m @ [t],
             redis_tasks := (redis_tasks m)(c := None)\<rparr>"
      by (simp add: m'_def dl)
    have inv': "manager_inv m'" unfolding m'_def by (rule manager_inv_disconnect [OF inv])
    have r': "rooms m' c = None" and t': "redis_tasks m' c = None" by (simp_all add: m')
    have l': "live_tasks m' c = []" using inv_live [OF inv', of c] t' by simp
    have inv'': "manager_inv (snd (connect c ws' True m'))" by (rule manager_inv_connect [OF inv'])
    have lt: "t < length (created m)" using inv_task_created [OF inv t] by simp
    have n: "redis_tasks (snd (connect c ws' True m')) c = Some (length (created m))"
      by (simp add: connect_new_room [OF r' t']) (simp add: m')
    have lv: "live_tasks (snd (connect c ws' True m')) c = [length (created m)]"
      using inv_live [OF inv'', of c] n by simp
    have ne: "length (created m) \<noteq> t" using lt by simp
    have fresh: "\<exists>t'. redis_tasks (snd (connect c ws' True (snd (disconnect c ws m)))) c = Some t'
                   \<and> t' \<noteq> t
                   \<and> live_tasks (snd (connect c ws' True (snd (disconnect c ws m)))) c = [t']"
      using n lv ne unfolding m'_def by (intro exI [of _ "length (created m)"] conjI)
    have l'': "live_tasks (snd (disconnect c ws m)) c = []" using l' unfolding m'_def .
    show ?thesis
      by (rule exI [of _ t], intro conjI) (rule t, rule dl, rule l'', rule fresh)
  qed
  have e': "members m c = {} \<longrightarrow>
          connect c ws True m =
            (None, m\<lparr>rooms := (rooms m)(c \<mapsto> {ws}),
                     redis_tasks := (redis_tasks m)(c \<mapsto> length (created m)),
                     created := created m @ [(length (created m), c)]\<rparr>)
        \<and> live_tasks (snd (connect c ws True m)) c = [length (created m)]
        \<and> disconnect c ws m = (None, m)"
    using e by (rule impI)
  have o': "members m c \<noteq> {} \<longrightarrow>
          connect c ws True m = (None, m\<lparr>rooms := (rooms m)(c \<mapsto> insert ws (members m c))\<rparr>)"
    using o by (rule impI)
  have s': "members m c - {ws} \<noteq> {} \<longrightarrow>
          disconnect c ws m = (None, m\<lparr>rooms := (rooms m)(c \<mapsto> members m c - {ws})\<rparr>)"
    using s by (rule impI)
  have d': "members m c = {ws} \<longrightarrow>
          (\<exists>t. redis_tasks m c = Some t
             \<and> disconnect c ws m =
                 (None, m\<lparr>rooms := (rooms m)(c := None), cancelled := cancelled m @ [t],
                          redis_tasks := (redis_tasks m)(c := None)\<rparr>)
             \<and> live_tasks (snd (disconnect c ws m)) c = []
             \<and> (\<exists>t'. redis_tasks (snd (connect c ws' True (snd (disconnect c ws m)))) c = Some t'
                   \<and> t' \<noteq> t
                   \<and> live_tasks (snd (connect c ws' True (snd (disconnect c ws m)))) c = [t']))"
    using d by (rule impI)
  show ?thesis
    by (intro conjI) (rule mem, rule fin, rule cnt, rule rm, rule a, rule l, rule b, rule f,
      rule e', rule o', rule s', rule d')
qed

text \<open>
  C7 at the empty manager, where the first connect creates the task 0; after two
  connects to the room \<open>r1\<close>, where a third connect adds to the set and a disconnect
  leaves the other connection; and after the disconnect of the first connection, where
  the second is left and its disconnect is the last.
\<close>

theorem listener_iff_connected_witness:
  "members (run [] init_manager) ''r1'' = {}
   \<and> redis_tasks (snd (connect ''r1'' 1 True (run [] init_manager))) ''r1'' = Some 0
   \<and> members (snd (connect ''r1'' 3 True
        (run [Connect ''r1'' 1 True, Connect ''r1'' 2 True] init_manager))) ''r1'' = {1, 2, 3}
   \<and> members (snd (disconnect ''r1'' 1
        (run [Connect ''r1'' 1 True, Connect ''r1'' 2 True] init_manager))) ''r1'' = {2}
   \<and> members (run [Connect ''r1'' 1 True, Connect ''r1'' 2 True, Disconnect ''r1'' 1] init_manager) ''r1''
     = {2}
   \<and> (\<exists>t. redis_tasks (run [Connect ''r1'' 1 True, Connect ''r1'' 2 True, Disconnect ''r1'' 1]
            init_manager) ''r1'' = Some t
        \<and> redis_tasks (snd (disconnect ''r1'' 2
            (run [Connect ''r1'' 1 True, Connect ''r1'' 2 True, Disconnect ''r1'' 1] init_manager)))
            ''r1'' = None)"
proof -
  define ops where "ops = [Connect ''r1'' 1 True, Connect ''r1'' 2 True, Disconnect ''r1'' 1]"
  define m0 where "m0 = run [] init_manager"
  define m where "m = run ops init_manager"
  note T0 = listener_iff_connected [of m0 "[]" "''r1''" 1 3, OF m0_def]
  note T = listener_iff_connected [of m ops "''r1''" 2 3, OF m_def]
  have t0: "tracked [] no_connections ''r1'' = {}"
    by (simp add: no_connections_def)
  have t: "tracked ops no_connections ''r1'' = {2}"
    by (auto simp: no_connections_def ops_def)
  have z: "members m0 ''r1'' = {}"
    using T0 [THEN conjunct1] t0 by simp
  have c0: "created m0 = []"
    by (simp add: m0_def init_manager_def)
  have "members m0 ''r1'' = {} \<longrightarrow>
          connect ''r1'' 1 True m0 =
            (None, m0\<lparr>rooms := (rooms m0)(''r1'' \<mapsto> {1}),
                     redis_tasks := (redis_tasks m0)(''r1'' \<mapsto> length (created m0)),
                     created := created m0 @ [(length (created m0), ''r1'')]\<rparr>)
        \<and> live_tasks (snd (connect ''r1'' 1 True m0)) ''r1'' = [length (created m0)]
        \<and> disconnect ''r1'' 1 m0 = (None, m0)"
    by (rule T0 [THEN conjunct2, THEN conjunct2, THEN conjunct2, THEN conjunct2,
        THEN conjunct2, THEN conjunct2, THEN conjunct2, THEN conjunct2, THEN conjunct1])
  with z have "connect ''r1'' 1 True m0 =
            (None, m0\<lparr>rooms := (rooms m0)(''r1'' \<mapsto> {1}),
                     redis_tasks := (redis_tasks m0)(''r1'' \<mapsto> length (created m0)),
                     created := created m0 @ [(length (created m0), ''r1'')]\<rparr>)"
    by blast
  then have n: "redis_tasks (snd (connect ''r1'' 1 True m0)) ''r1'' = Some 0"
    by (simp add: c0)
  have r: "members m ''r1'' = {2}"
    using T [THEN conjunct1] t by simp
  have "members m ''r1'' = {2} \<longrightarrow>
          (\<exists>t. redis_tasks m ''r1'' = Some t
             \<and> disconnect ''r1'' 2 m =
                 (None, m\<lparr>rooms := (rooms m)(''r1'' := None), cancelled := cancelled m @ [t],
                          redis_tasks := (redis_tasks m)(''r1'' := None)\<rparr>)
             \<and> live_tasks (snd (disconnect ''r1'' 2 m)) ''r1'' = []
             \<and> (\<exists>t'. redis_tasks (snd (connect ''r1'' 3 True (snd (disconnect ''r1'' 2 m)))) ''r1''
                     = Some t'
                   \<and> t' \<noteq> t
                   \<and> live_tasks (snd (connect ''r1'' 3 True (snd (disconnect ''r1'' 2 m)))) ''r1''
                     = [t']))"
    by (rule T [THEN conjunct2, THEN conjunct2, THEN conjunct2, THEN conjunct2,
        THEN conjunct2, THEN conjunct2, THEN conjunct2, THEN conjunct2, THEN conjunct2,
        THEN conjunct2, THEN conjunct2])
  with r obtain t where rt: "redis_tasks m ''r1'' = Some t"
    and dl: "disconnect ''r1'' 2 m =
                 (None, m\<lparr>rooms := (rooms m)(''r1'' := None), cancelled := cancelled m @ [t],
                          redis_tasks := (redis_tasks m)(''r1'' := None)\<rparr>)"
    by blast
  have "redis_tasks (snd (disconnect ''r1'' 2 m)) ''r1'' = None"
    by (simp add: dl)
  with rt have e: "\<exists>t. redis_tasks m ''r1'' = Some t
      \<and> redis_tasks (snd (disconnect ''r1'' 2 m)) ''r1'' = None"
    by blast
  define ops2 where "ops2 = [Connect ''r1'' 1 True, Connect ''r1'' 2 True]"
  define m2 where "m2 = run ops2 init_manager"
  note T2 = listener_iff_connected [of m2 ops2 "''r1''" _ 3, OF m2_def]
  have t2: "tracked ops2 no_connections ''r1'' = {1, 2}"
    by (auto simp: no_connections_def ops2_def)
  have r2: "members m2 ''r1'' = {1, 2}"
    using T2 [of 1, THEN conjunct1] t2 by simp
  have ne: "members m2 ''r1'' \<noteq> {}" using r2 by simp
  have ne1: "members m2 ''r1'' - {1} \<noteq> {}" using r2 by simp
  have "connect ''r1'' 3 True m2
      = (None, m2\<lparr>rooms := (rooms m2)(''r1'' \<mapsto> insert 3 (members m2 ''r1''))\<rparr>)"
    using T2 [of 3, THEN conjunct2, THEN conjunct2, THEN conjunct2, THEN conjunct2,
        THEN conjunct2, THEN conjunct2, THEN conjunct2, THEN conjunct2, THEN conjunct2,
        THEN conjunct1] ne
    by blast
  then have a: "members (snd (connect ''r1'' 3 True m2)) ''r1'' = {1, 2, 3}"
    using r2 by (auto simp: members_def)
  have "disconnect ''r1'' 1 m2
      = (None, m2\<lparr>rooms := (rooms m2)(''r1'' \<mapsto> members m2 ''r1'' - {1})\<rparr>)"
    using T2 [of 1, THEN conjunct2, THEN conjunct2, THEN conjunct2, THEN conjunct2,
        THEN conjunct2, THEN conjunct2, THEN conjunct2, THEN conjunct2, THEN conjunct2,
        THEN conjunct2, THEN conjunct1] ne1
    by blast
  then have b: "members (snd (disconnect ''r1'' 1 m2)) ''r1'' = {2}"
    using r2 by (auto simp: members_def)
  from z n a b r e show ?thesis
    unfolding m_def m0_def ops_def m2_def ops2_def by (intro conjI)
qed

section \<open>Broadcast stops at the first failure\<close>











lemma broadcast_no_room: "rooms m c = None \<Longrightarrow> broadcast next_of c msg turns m = ([], Returned, m)"
  by (simp add: broadcast_def)











text \<open>The exception ends the listener task: later messages of the channel reach nobody.\<close>

lemma listen_dies:
  "listen in_order ''r1''
     [(''message'', ''a'', run [Connect ''r1'' 1 True, Connect ''r1'' 2 True] init_manager,
       [Send_Turn (Some TransportError) [], Send_Turn None []]),
      (''message'', ''b'', run [Connect ''r1'' 1 True, Connect ''r1'' 2 True] init_manager,
       [Send_Turn None [], Send_Turn None []])]
   = ([], Raised TransportError)"
proof -
  define m where "m = run [Connect ''r1'' 1 True, Connect ''r1'' 2 True] init_manager"
  have r: "rooms m ''r1'' = Some {1, 2}"
    by (auto simp: m_def connect_def init_manager_def Let_def dom_def)
  have "broadcast in_order ''r1'' ''a'' [Send_Turn (Some TransportError) [], Send_Turn None []] m
      = ([], Raised TransportError, m)"
    by (simp add: broadcast_def r iterated_def members_def set_next_def in_order_def)
  then show ?thesis unfolding m_def by simp
qed

section \<open>The ingress loop\<close>

lemma published_on_exception [simp]:
  "published (fst (on_exception c ws e m)) = []"
  by (simp add: on_exception_def published_def split: prod.splits option.splits)

lemma persisted_first_on_exception [simp]:
  "persisted_first seen (fst (on_exception c ws e m))"
  by (simp add: on_exception_def split: prod.splits option.splits)

lemma published_Cons [simp]:
  "published (Commit msg # evs) = published evs"
  "published (Publish ch p # evs) = (ch, p) # published evs"
  "published [] = []"
  by (simp_all add: published_def)

lemma fst_handler [simp]:
  "fst (case x of (evs, out, m') \<Rightarrow> (g evs, out, m', d)) = g (fst x)"
  by (cases x) auto

lemma fst_loop [simp]:
  "fst (case y of (evs, x) \<Rightarrow> (h evs, k x)) = h (fst y)"
  by (cases y) simp

lemma persisted_first_ingress:
  "persisted_first seen (fst (ingress c u ws ios m d))"
proof (induction c u ws ios m d arbitrary: seen rule: ingress.induct)
  case (1 chat_id user ws m d)
  show ?case by simp
next
  case (2 chat_id user ws e rest m d)
  show ?case by simp
next
  case (3 chat_id user ws data commit publish rest m d)
  show ?case
  proof (cases commit)
    case (Inl e)
    then show ?thesis by simp
  next
    case (Inr p)
    obtain i ts where p: "p = (i, ts)" by (cases p)
    show ?thesis
    proof (cases publish)
      case (Some e)
      then show ?thesis
        using Inr p by (simp add: Let_def)
    next
      case None
      then show ?thesis
        using Inr p "3.IH" [OF Inr p [symmetric] refl refl refl None]
        by (simp add: Let_def payload_of_def)
    qed
  qed
qed

lemma published_failed_commit:
  "published (fst (ingress c u ws (pre @ Frame data0 (Inl e0) publish0 # rest0) m d)) =
   published (fst (ingress c u ws pre m d))"
proof (induction c u ws pre m d rule: ingress.induct)
  case (1 chat_id user ws m d)
  show ?case by simp
next
  case (2 chat_id user ws e rest m d)
  show ?case by simp
next
  case (3 chat_id user ws data commit publish rest m d)
  show ?case
  proof (cases commit)
    case (Inl e)
    then show ?thesis by simp
  next
    case (Inr p)
    obtain i ts where p: "p = (i, ts)" by (cases p)
    show ?thesis
    proof (cases publish)
      case (Some e)
      then show ?thesis
        using Inr p by (simp add: Let_def)
    next
      case None
      then show ?thesis
        using Inr p "3.IH" [OF Inr p [symmetric] refl refl refl None]
        by (simp add: Let_def)
    qed
  qed
qed
lemma published_in_db:
  "snd ` set (published (fst (ingress c u ws ios m d)))
     \<subseteq> payload_of ` set (messages (snd (snd (snd (ingress c u ws ios m d)))))
   \<and> set (messages d) \<subseteq> set (messages (snd (snd (snd (ingress c u ws ios m d)))))"
proof (induction c u ws ios m d rule: ingress.induct)
  case (1 chat_id user ws m d)
  show ?case by simp
next
  case (2 chat_id user ws e rest m d)
  show ?case by (simp split: prod.splits)
next
  case (3 chat_id user ws data commit publish rest m d)
  show ?case
  proof (cases commit)
    case (Inl e)
    then show ?thesis by (simp split: prod.splits)
  next
    case (Inr p)
    obtain i ts where p: "p = (i, ts)" by (cases p)
    show ?thesis
    proof (cases publish)
      case (Some e)
      then show ?thesis
        using Inr p by (auto simp: Let_def split: prod.splits)
    next
      case None
      define msg where "msg = \<lparr>msg_id = i, msg_chat_id = chat_id,
        sender = preferred_username user, content = data, timestamp = ts\<rparr>"
      define d1 where "d1 = d\<lparr>messages := messages d @ [msg]\<rparr>"
      obtain evs out m' d2 where r: "ingress chat_id user ws rest m d1 = (evs, out, m', d2)"
        by (cases "ingress chat_id user ws rest m d1") auto
      have ih: "snd ` set (published evs) \<subseteq> payload_of ` set (messages d2)
          \<and> set (messages d1) \<subseteq> set (messages d2)"
        using "3.IH" [OF Inr p [symmetric] refl refl refl None] r
        by (simp add: msg_def d1_def)
      have "msg \<in> set (messages d2)" using ih by (auto simp: d1_def)
      then have "payload_of msg \<in> payload_of ` set (messages d2)" by (rule imageI)
      moreover have "set (messages d) \<subseteq> set (messages d2)" using ih by (auto simp: d1_def)
      moreover have "ingress chat_id user ws (Frame data commit publish # rest) m d =
          (Commit msg # Publish (channel chat_id) (payload_of msg) # evs, out, m', d2)"
        using Inr p None r by (simp add: Let_def msg_def d1_def payload_of_def)
      ultimately show ?thesis using ih by simp
    qed
  qed
qed

text \<open>
  Claim C1. For every script of turns, every manager and every database: reading the
  trace of the loop in order, each publish carries the payload of a message committed
  earlier in the trace, on that room's channel, and every published payload belongs to
  a message of the database the loop leaves behind. A frame whose commit succeeds
  contributes its commit, with the identifier and timestamp the store assigned, and
  then its publish, in this order. A frame whose commit raises publishes nothing, and
  neither does any later frame: the publishes of the whole script are those of the
  frames before it; the database is left without that message.
\<close>

theorem persist_before_publish:
  "persisted_first [] (fst (ingress c u ws ios m d))
   \<and> snd ` set (published (fst (ingress c u ws ios m d)))
         \<subseteq> payload_of ` set (messages (snd (snd (snd (ingress c u ws ios m d)))))
   \<and> fst (ingress c u ws (Frame data (Inr (i, ts)) None # ios) m d) =
         Commit \<lparr>msg_id = i, msg_chat_id = c, sender = preferred_username u,
                 content = data, timestamp = ts\<rparr>
       # Publish (channel c) \<lparr>p_id = i, p_sender = preferred_username u,
                 p_content = data, p_timestamp = ts\<rparr>
       # fst (ingress c u ws ios m
              (d\<lparr>messages := messages d @
                 [\<lparr>msg_id = i, msg_chat_id = c, sender = preferred_username u,
                   content = data, timestamp = ts\<rparr>]\<rparr>))
   \<and> published (fst (ingress c u ws (pre @ Frame data (Inl e) publish # rest) m d)) =
       published (fst (ingress c u ws pre m d))
   \<and> snd (snd (snd (ingress c u ws (Frame data (Inl e) publish # rest) m d))) = d"
proof -
  have "snd (snd (snd (ingress c u ws (Frame data (Inl e) publish # rest) m d))) = d"
    by (simp split: prod.splits)
  moreover have "fst (ingress c u ws (Frame data (Inr (i, ts)) None # ios) m d) =
         Commit \<lparr>msg_id = i, msg_chat_id = c, sender = preferred_username u,
                 content = data, timestamp = ts\<rparr>
       # Publish (channel c) \<lparr>p_id = i, p_sender = preferred_username u,
                 p_content = data, p_timestamp = ts\<rparr>
       # fst (ingress c u ws ios m
              (d\<lparr>messages := messages d @
                 [\<lparr>msg_id = i, msg_chat_id = c, sender = preferred_username u,
                   content = data, timestamp = ts\<rparr>]\<rparr>))"
    by (simp add: Let_def)
  ultimately show ?thesis
    using persisted_first_ingress [of "[]" c u ws ios m d]
      published_in_db [of c u ws ios m d]
      published_failed_commit [of c u ws pre data e publish rest m d]
    by blast
qed

text \<open>
  C1 at a script whose second commit fails: only the first frame is published.
\<close>

theorem persist_before_publish_witness:
  "published (fst (ingress ''r1'' alice 1
      [Frame ''hi'' (Inr (7, 100)) None, Frame ''lost'' (Inl DbError) None,
       Frame ''later'' (Inr (8, 101)) None] init_manager demo_db))
   = [(''chat_channel:r1'',
       \<lparr>p_id = 7, p_sender = ''alice'', p_content = ''hi'', p_timestamp = 100\<rparr>)]"
proof -
  have "published (fst (ingress ''r1'' alice 1
      ([Frame ''hi'' (Inr (7, 100)) None] @ Frame ''lost'' (Inl DbError) None #
       [Frame ''later'' (Inr (8, 101)) None]) init_manager demo_db))
    = published (fst (ingress ''r1'' alice 1 [Frame ''hi'' (Inr (7, 100)) None]
        init_manager demo_db))"
    using persist_before_publish by blast
  then show ?thesis
    by (simp add: Let_def channel_def alice_def)
qed

section \<open>Leaving the Active state\<close>

text \<open>
  Claim C3 asks for one deregistration on every exit from the loop. The handler of the
  loop catches \<^verbatim>\<open>WebSocketDisconnect\<close> only. When the commit or the publish of a
  frame raises, or the task is cancelled while it waits for a frame, the exception
  leaves the endpoint, \<^verbatim>\<open>manager.disconnect\<close> is not called, and the connection stays
  in the room's set.
\<close>

theorem deregistration_skipped_on_error:
  "chat_endpoint demo_verify 1 ''r1'' (Some ''token-alice'') True
     [Frame ''hi'' (Inl DbError) None] init_manager demo_db
   = ([Subscribe ''chat_channel:r1'', Register ''r1'' 1], Raised DbError,
      snd (connect ''r1'' 1 True init_manager), demo_db)
   \<and> fst (snd (chat_endpoint demo_verify 1 ''r1'' (Some ''token-alice'') True
     [Frame ''hi'' (Inr (7, 100)) (Some RedisError)] init_manager demo_db))
   = Raised RedisError
   \<and> deregistrations (fst (chat_endpoint demo_verify 1 ''r1'' (Some ''token-alice'') True
     [Frame ''hi'' (Inr (7, 100)) (Some RedisError)] init_manager demo_db)) = 0
   \<and> chat_endpoint demo_verify 1 ''r1'' (Some ''token-alice'') True
     [Receive_Raises CancelledError] init_manager demo_db
   = ([Subscribe ''chat_channel:r1'', Register ''r1'' 1], Raised CancelledError,
      snd (connect ''r1'' 1 True init_manager), demo_db)
   \<and> deregistrations [Subscribe ''chat_channel:r1'', Register ''r1'' 1] = 0
   \<and> rooms (snd (connect ''r1'' 1 True init_manager)) ''r1'' = Some {1}"
  by (simp add: chat_endpoint_def demo_defs user_chats_def channel_def connect_def
      init_manager_def Let_def dom_def on_exception_def deregistrations_def)

text \<open>On a client disconnect the handler deregisters, once.\<close>

lemma deregistration_on_disconnect:
  "chat_endpoint demo_verify 1 ''r1'' (Some ''token-alice'') True
     [Receive_Raises WebSocketDisconnect] init_manager demo_db
   = ([Subscribe ''chat_channel:r1'', Register ''r1'' 1, Deregister ''r1'' 1], Returned,
      init_manager\<lparr>created := [(0, ''r1'')], cancelled := [0]\<rparr>, demo_db)"
  by (simp add: chat_endpoint_def demo_defs user_chats_def channel_def connect_def
      init_manager_def Let_def dom_def on_exception_def disconnect_def)

text \<open>
  Over every script the loop deregisters at most once, and a run that returns has
  deregistered once: returning is the disconnect path.
\<close>

lemma deregistrations_on_exception:
  "deregistrations (fst (on_exception c ws e m)) = (if e = WebSocketDisconnect then 1 else 0)"
  by (simp add: on_exception_def deregistrations_def split: prod.splits option.splits)

lemma outcome_on_exception:
  "fst (snd (on_exception c ws e m)) \<noteq> Active
   \<and> (fst (snd (on_exception c ws e m)) = Returned \<longrightarrow> e = WebSocketDisconnect)"
  by (simp add: on_exception_def split: prod.splits option.splits)

lemma deregistrations_Cons [simp]:
  "deregistrations (Commit msg # evs) = deregistrations evs"
  "deregistrations (Publish ch p # evs) = deregistrations evs"
  "deregistrations [] = 0"
  by (simp_all add: deregistrations_def)

lemma snd_handler [simp]:
  "fst (snd (case x of (evs, out, m') \<Rightarrow> (g evs, out, m', d))) = fst (snd x)"
  by (cases x) auto

lemma snd_loop [simp]:
  "snd (case y of (evs, x) \<Rightarrow> (h evs, x)) = snd y"
  by (cases y) simp

lemma deregistration_only_on_disconnect:
  "deregistrations (fst (ingress c u ws ios m d)) \<le> 1
   \<and> (fst (snd (ingress c u ws ios m d)) = Returned
        \<longrightarrow> deregistrations (fst (ingress c u ws ios m d)) = 1)"
proof (induction c u ws ios m d rule: ingress.induct)
  case (1 chat_id user ws m d)
  show ?case by simp
next
  case (2 chat_id user ws e rest m d)
  show ?case
    using outcome_on_exception [of chat_id ws e m]
    by (simp add: deregistrations_on_exception)
next
  case (3 chat_id user ws data commit publish rest m d)
  show ?case
  proof (cases commit)
    case (Inl e)
    then show ?thesis
      using outcome_on_exception [of chat_id ws e m]
      by (simp add: deregistrations_on_exception)
  next
    case (Inr p)
    obtain i ts where p: "p = (i, ts)" by (cases p)
    show ?thesis
    proof (cases publish)
      case (Some e)
      then show ?thesis
        using Inr p outcome_on_exception [of chat_id ws e m]
        by (simp add: Let_def deregistrations_on_exception)
    next
      case None
      then show ?thesis
        using Inr p "3.IH" [OF Inr p [symmetric] refl refl refl None]
        by (simp add: Let_def)
    qed
  qed
qed

section \<open>Rejected connections\<close>

text \<open>
  Claim C4 asks for the close code 1008 when the identity is not a participant of the
  room. The endpoint closes such a connection with \<^verbatim>\<open>websocket.close()\<close>, whose code
  is the default 1000, while a missing or invalid token is closed with 1008.
\<close>

theorem non_participant_close_code:
  "close_codes (fst (chat_endpoint demo_verify 2 ''r1'' (Some ''token-mallory'') True []
      init_manager demo_db)) = [1000]
   \<and> close_codes (fst (chat_endpoint demo_verify 2 ''r1'' (Some ''forged'') True []
      init_manager demo_db)) = [1008]
   \<and> close_codes (fst (chat_endpoint demo_verify 2 ''r1'' None True []
      init_manager demo_db)) = [1008]"
  by (simp add: chat_endpoint_def demo_defs user_chats_def close_codes_def default_close_code_def)

text \<open>
  A connection that is turned away leaves the manager as it was and is not registered;
  with a missing, empty or invalid token the endpoint does nothing but close with 1008.
\<close>

lemma rejected_token:
  assumes "token = None \<or> token = Some [] \<or> (\<exists>t. token = Some t \<and> verify_token t = None)"
  shows "chat_endpoint verify_token ws c token accept_ok ios m d = ([Close 1008], Returned, m, d)"
  using assms by (auto simp: chat_endpoint_def)

lemma rejected_identity:
  assumes "token = Some t" "t \<noteq> []" "verify_token t = Some user"
    and "users d (sub user) = None \<or> c \<notin> set (user_chats d (sub user))"
  shows "chat_endpoint verify_token ws c token accept_ok ios m d =
           ([Subscribe (channel c), Close default_close_code], Returned, m, d)"
  using assms by (auto simp: chat_endpoint_def)

text \<open>
  Claim C5 asks that a connection failing authentication or authorization is never
  registered and never causes a subscription. The endpoint subscribes its pubsub handle
  to the room's channel after the token check and before the membership check, so an
  identity with a valid token that is not a participant of the room is not registered
  but has subscribed.
\<close>

theorem unauthorized_connection_subscribes:
  "chat_endpoint demo_verify 2 ''r1'' (Some ''token-mallory'') True [] init_manager demo_db
   = ([Subscribe ''chat_channel:r1'', Close 1000], Returned, init_manager, demo_db)
   \<and> subscriptions ''chat_channel:r1''
        (fst (chat_endpoint demo_verify 2 ''r1'' (Some ''token-mallory'') True []
           init_manager demo_db)) = 1"
  by (simp add: chat_endpoint_def demo_defs user_chats_def channel_def default_close_code_def
      subscriptions_def)

text \<open>
  Claim C6 asks for at most one subscription on a room's channel. One participant
  connects to the room \<open>r1\<close> and waits for frames: the endpoint has subscribed its own
  pubsub handle to the channel, and the listener task that \<^verbatim>\<open>connect\<close> created
  subscribes to the same channel when it runs. That makes two subscriptions, while the
  manager holds one live listener task for the room.
\<close>
theorem two_subscriptions_on_one_channel:
  "fst (snd (chat_endpoint demo_verify 1 ''r1'' (Some ''token-alice'') True [] init_manager demo_db))
     = Active
   \<and> subscriptions ''chat_channel:r1''
       (fst (chat_endpoint demo_verify 1 ''r1'' (Some ''token-alice'') True [] init_manager demo_db)
        @ fst (listen_to_redis in_order ''r1'' [])) = 2
   \<and> live_tasks (fst (snd (snd (chat_endpoint demo_verify 1 ''r1'' (Some ''token-alice'') True []
               init_manager demo_db)))) ''r1'' = [0]"
  by (simp add: chat_endpoint_def demo_defs user_chats_def channel_def connect_def
      init_manager_def Let_def dom_def listen_to_redis_def subscriptions_def live_tasks_def)

section \<open>Message history\<close>

lemma order_by_timestamp_desc_sorted:
  "sorted_wrt (\<lambda>a b. timestamp b \<le> timestamp a) (order_by_timestamp_desc ms)"
proof -
  have "sorted (map (\<lambda>msg. - timestamp msg) (order_by_timestamp_desc ms))"
    by (simp add: order_by_timestamp_desc_def)
  then show ?thesis by (simp add: sorted_map)
qed

lemma order_by_timestamp_desc_mset [simp]:
  "mset (order_by_timestamp_desc ms) = mset ms"
  by (simp add: order_by_timestamp_desc_def)

lemma order_by_timestamp_desc_set [simp]:
  "set (order_by_timestamp_desc ms) = set ms"
  by (simp add: order_by_timestamp_desc_def)

lemma order_by_timestamp_desc_length [simp]:
  "length (order_by_timestamp_desc ms) = length ms"
  by (simp add: order_by_timestamp_desc_def)

lemma order_by_timestamp_desc_Nil [simp]:
  "order_by_timestamp_desc ms = [] \<longleftrightarrow> ms = []"
  using order_by_timestamp_desc_length [of ms] by (metis length_0_conv)

lemma newest_first_page:
  "newest_first (map payload_of (take n (order_by_timestamp_desc ms)))"
proof -
  have "sorted_wrt (\<lambda>a b. timestamp b \<le> timestamp a) (take n (order_by_timestamp_desc ms))"
    by (rule sorted_wrt_take [OF order_by_timestamp_desc_sorted])
  then show ?thesis
    by (simp add: newest_first_def sorted_wrt_map payload_of_def)
qed

lemma history_out_of_range:
  "limit < 0 \<or> limit_bound \<le> limit \<Longrightarrow> get_chat_history c limit d = Inl DbError"
  by (simp add: get_chat_history_def)

text \<open>
  Claim C8, as the code has it. For a limit from 0 up to the largest that the driver
  can bind, \<open>2 ^ 63 - 1\<close>, the history fails with 404 exactly when the room has no
  messages or the limit is 0. Otherwise it
  returns the first \<open>limit\<close> rows of the room's messages ordered newest first: at most
  \<open>limit\<close> items, as many as the room has if those are fewer, each the payload of a
  message of the room, with timestamps that never rise. A request without a limit is
  served with the limit 50.
\<close>

theorem history_page:
  assumes "0 \<le> limit" and "limit < limit_bound"
  shows "(get_chat_history c limit d = Inl (HTTPException 404)
            \<longleftrightarrow> room_messages c d = [] \<or> limit = 0)
    \<and> (get_chat_history c limit d \<noteq> Inl (HTTPException 404) \<longrightarrow>
          (\<exists>rows. get_chat_history c limit d = Inr (map payload_of (take (nat limit) rows))
             \<and> mset rows = mset (room_messages c d)
             \<and> newest_first (map payload_of rows)))
    \<and> (\<forall>items. get_chat_history c limit d = Inr items \<longrightarrow>
          int (length items) \<le> limit
        \<and> length items = min (nat limit) (length (room_messages c d))
        \<and> newest_first items
        \<and> set items \<subseteq> payload_of ` set (room_messages c d))
    \<and> get_chat_history_route bearer c None d = get_chat_history c 50 d"
proof -
  let ?rows = "order_by_timestamp_desc (room_messages c d)"
  have a: "get_chat_history c limit d = Inl (HTTPException 404)
            \<longleftrightarrow> room_messages c d = [] \<or> limit = 0"
    using assms by (auto simp: get_chat_history_def Let_def take_eq_Nil)
  have b: "\<exists>rows. get_chat_history c limit d = Inr (map payload_of (take (nat limit) rows))
             \<and> mset rows = mset (room_messages c d)
             \<and> newest_first (map payload_of rows)"
    if "get_chat_history c limit d \<noteq> Inl (HTTPException 404)"
  proof -
    have "get_chat_history c limit d = Inr (map payload_of (take (nat limit) ?rows))"
      using that assms by (simp add: get_chat_history_def Let_def split: if_splits)
    moreover have "newest_first (map payload_of ?rows)"
      using newest_first_page [of "length ?rows" "room_messages c d"] by simp
    ultimately show ?thesis by (intro exI [of _ ?rows]) simp
  qed
  have c: "int (length items) \<le> limit
        \<and> length items = min (nat limit) (length (room_messages c d))
        \<and> newest_first items
        \<and> set items \<subseteq> payload_of ` set (room_messages c d)"
    if "get_chat_history c limit d = Inr items" for items
  proof -
    have i: "items = map payload_of (take (nat limit) ?rows)"
      using that assms by (auto simp: get_chat_history_def Let_def split: if_splits)
    have "set (take (nat limit) ?rows) \<subseteq> set (room_messages c d)"
      using set_take_subset [of "nat limit" ?rows] by simp
    then have "set items \<subseteq> payload_of ` set (room_messages c d)"
      unfolding i by auto
    moreover have "length items = min (nat limit) (length (room_messages c d))"
      unfolding i by simp
    moreover from this have "int (length items) \<le> limit" using assms by linarith
    moreover have "newest_first items" unfolding i by (rule newest_first_page)
    ultimately show ?thesis by simp
  qed
  have e: "get_chat_history_route bearer c None d = get_chat_history c 50 d"
    by (simp add: get_chat_history_route_def)
  from a b c e show ?thesis by blast
qed

text \<open>C8 at the limit 2, in a room of three messages: the two newest, newest first.\<close>

theorem history_page_witness:
  "(0::int) \<le> 2 \<and> 2 < limit_bound \<and> get_chat_history ''r1'' 2 demo_history_db =
     Inr [\<lparr>p_id = 2, p_sender = ''bob'', p_content = ''b'', p_timestamp = 300\<rparr>,
          \<lparr>p_id = 4, p_sender = ''alice'', p_content = ''d'', p_timestamp = 200\<rparr>]
   \<and> newest_first
        [\<lparr>p_id = 2, p_sender = ''bob'', p_content = ''b'', p_timestamp = 300\<rparr>,
         \<lparr>p_id = 4, p_sender = ''alice'', p_content = ''d'', p_timestamp = 200\<rparr>]"
proof -
  have h: "(0::int) \<le> 2" by simp
  have b: "2 < limit_bound" by (simp add: limit_bound_def)
  have r: "get_chat_history ''r1'' 2 demo_history_db =
     Inr [\<lparr>p_id = 2, p_sender = ''bob'', p_content = ''b'', p_timestamp = 300\<rparr>,
          \<lparr>p_id = 4, p_sender = ''alice'', p_content = ''d'', p_timestamp = 200\<rparr>]"
    by (simp add: get_chat_history_def room_messages_def order_by_timestamp_desc_def
        demo_history_db_def payload_of_def Let_def numeral_2_eq_2 limit_bound_def)
  from history_page [OF h b, of "''r1''" demo_history_db] r b show ?thesis by simp
qed

text \<open>
  Claim C8 as stated fails at the limit 0: the room has messages and the answer is 404.
\<close>

theorem history_limit_zero_counterexample:
  "get_chat_history ''r1'' 0 demo_history_db = Inl (HTTPException 404)
   \<and> room_messages ''r1'' demo_history_db \<noteq> []"
  by (simp add: get_chat_history_def room_messages_def demo_history_db_def limit_bound_def)

text \<open>
  Claim C9. The history route reads the messages table only: two requests for the same
  chat id and limit get the same answer whatever bearer token each carries, and
  whatever the users and chats tables say about who participates in the room.
\<close>

theorem history_ignores_caller:
  assumes "messages d1 = messages d2"
  shows "get_chat_history_route bearer1 c limit d1 = get_chat_history_route bearer2 c limit d2"
  using assms by (simp add: get_chat_history_route_def get_chat_history_def room_messages_def)

text \<open>
  C9 for a caller with a token who is not a participant of \<open>r1\<close> and a caller without a
  token, against a database in which the room has no participants at all.
\<close>

theorem history_ignores_caller_witness:
  "messages demo_history_db = messages (demo_history_db\<lparr>chats := []\<rparr>)
   \<and> get_chat_history_route (Some ''token-mallory'') ''r1'' None demo_history_db
     = get_chat_history_route None ''r1'' None (demo_history_db\<lparr>chats := []\<rparr>)"
proof -
  have h: "messages demo_history_db = messages (demo_history_db\<lparr>chats := []\<rparr>)" by simp
  from history_ignores_caller [OF h] h show ?thesis by blast
qed

section \<open>Room creation\<close>

lemma create_chat_400:
  "fst (create_chat new_id userId user d) = Inl (HTTPException 400)
     \<longleftrightarrow> users d (sub user) = None \<or> users d userId = None"
  by (simp add: create_chat_def Let_def)

lemma create_chat_ok:
  assumes "users d (sub user) \<noteq> None" "users d userId \<noteq> None"
    and "new_id \<notin> chat_ident ` set (chats d)"
  shows "create_chat new_id userId user d =
    (Inr (''Chat created'', new_id),
     d\<lparr>chats := chats d @
        [\<lparr>chat_ident = new_id, name = [], participants = [sub user, userId]\<rparr>]\<rparr>)"
  using assms by (simp add: create_chat_def Let_def)

lemma create_chat_taken:
  assumes "users d (sub user) \<noteq> None" "users d userId \<noteq> None"
    and "new_id \<in> chat_ident ` set (chats d)"
  shows "create_chat new_id userId user d = (Inl DbError, d)"
  using assms by (simp add: create_chat_def Let_def)

lemma get_current_user_401:
  "bearer = None \<or> (\<exists>t. bearer = Some t \<and> verify_token t = None) \<Longrightarrow>
     get_current_user verify_token bearer d = (Inl (HTTPException 401), d)"
  by (auto simp: get_current_user_def)

lemma get_current_user_ok:
  assumes "bearer = Some t" "verify_token t = Some user"
  shows "get_current_user verify_token bearer d =
    (Inr user, d\<lparr>users := (case users d (sub user) of
                                None \<Rightarrow> (users d)(sub user \<mapsto> preferred_username user)
                              | Some _ \<Rightarrow> users d)\<rparr>)"
  using assms by (simp add: get_current_user_def split: option.splits)

lemma route_401:
  "fst (create_chat_route verify_token bearer new_id userId d) = Inl (HTTPException 401)
     \<longleftrightarrow> bearer = None \<or> (\<exists>t. bearer = Some t \<and> verify_token t = None)"
proof (cases "bearer = None \<or> (\<exists>t. bearer = Some t \<and> verify_token t = None)")
  case True
  then show ?thesis
    by (simp add: create_chat_route_def get_current_user_401 [OF True])
next
  case False
  then obtain t user where b: "bearer = Some t" and v: "verify_token t = Some user"
    by (cases bearer) auto
  show ?thesis
    using False
    by (simp add: create_chat_route_def get_current_user_ok [where verify_token = verify_token, OF b v] create_chat_def Let_def
        split: option.splits)
qed

lemma route_valid:
  assumes b: "bearer = Some t" and v: "verify_token t = Some user"
  shows "create_chat_route verify_token bearer new_id userId d =
     (if users d userId = None \<and> userId \<noteq> sub user then (Inl (HTTPException 400), d)
      else if new_id \<in> chat_ident ` set (chats d) then (Inl DbError, d)
      else (Inr (''Chat created'', new_id),
            d\<lparr>users := (case users d (sub user) of
                           None \<Rightarrow> (users d)(sub user \<mapsto> preferred_username user)
                         | Some _ \<Rightarrow> users d),
              chats := chats d @
                [\<lparr>chat_ident = new_id, name = [], participants = [sub user, userId]\<rparr>]\<rparr>))"
  by (auto simp: create_chat_route_def get_current_user_ok [where verify_token = verify_token, OF b v] create_chat_def Let_def
      split: option.splits)

lemma route_two_calls:
  assumes b: "bearer = Some t" and v: "verify_token t = Some user"
    and 1: "create_chat_route verify_token bearer new_id userId d = (Inr r1, d1)"
    and 2: "create_chat_route verify_token bearer next_id userId d1 = (Inr r2, d2)"
  shows "new_id \<noteq> next_id
    \<and> r1 = (''Chat created'', new_id) \<and> r2 = (''Chat created'', next_id)
    \<and> chats d2 = chats d @
        [\<lparr>chat_ident = new_id, name = [], participants = [sub user, userId]\<rparr>,
         \<lparr>chat_ident = next_id, name = [], participants = [sub user, userId]\<rparr>]"
proof -
  note v1 = route_valid [where verify_token = verify_token, OF b v, of new_id userId d]
  note v2 = route_valid [where verify_token = verify_token, OF b v, of next_id userId d1]
  from 1 v1 have r1: "r1 = (''Chat created'', new_id)"
    and c1: "chats d1 = chats d @
        [\<lparr>chat_ident = new_id, name = [], participants = [sub user, userId]\<rparr>]"
    by (auto split: if_splits)
  from 2 v2 have r2: "r2 = (''Chat created'', next_id)"
    and f2: "next_id \<notin> chat_ident ` set (chats d1)"
    and c2: "chats d2 = chats d1 @
        [\<lparr>chat_ident = next_id, name = [], participants = [sub user, userId]\<rparr>]"
    by (auto split: if_splits)
  from f2 c1 have "new_id \<noteq> next_id" by auto
  with r1 r2 c1 c2 show ?thesis by simp
qed

text \<open>
  Claim C10, as the code has it. The route has no duplicate check. It answers 401
  exactly when the bearer token is missing or refused. A caller who is not yet in the
  users table is put there by the dependency, so the 400 is raised exactly when the
  named user is neither in the users table nor the caller. Otherwise, with an
  identifier that is not taken, the call appends one chat with that identifier, the
  empty name and the caller and the named user as participants, in this order, and
  answers with the identifier; what chats exist already plays no part. An identifier
  that is taken fails the commit, and every failure leaves the database as it was. Two
  calls for the same pair that both succeed have appended two chats with the same
  participants and with identifiers that differ.
\<close>

theorem create_chat_no_duplicate_check:
  "(fst (create_chat_route verify_token bearer new_id userId d) = Inl (HTTPException 401)
      \<longleftrightarrow> bearer = None \<or> (\<exists>t. bearer = Some t \<and> verify_token t = None))
   \<and> (fst (create_chat_route verify_token bearer new_id userId d) = Inl (HTTPException 400)
      \<longleftrightarrow> (\<exists>t user. bearer = Some t \<and> verify_token t = Some user
            \<and> users d userId = None \<and> userId \<noteq> sub user))
   \<and> (\<forall>e. fst (create_chat_route verify_token bearer new_id userId d) = Inl e
        \<longrightarrow> snd (create_chat_route verify_token bearer new_id userId d) = d)
   \<and> (bearer = Some t \<and> verify_token t = Some user
        \<and> (users d userId \<noteq> None \<or> userId = sub user)
        \<and> new_id \<notin> chat_ident ` set (chats d) \<longrightarrow>
      create_chat_route verify_token bearer new_id userId d =
        (Inr (''Chat created'', new_id),
         d\<lparr>users := (case users d (sub user) of
                        None \<Rightarrow> (users d)(sub user \<mapsto> preferred_username user)
                      | Some _ \<Rightarrow> users d),
           chats := chats d @
             [\<lparr>chat_ident = new_id, name = [], participants = [sub user, userId]\<rparr>]\<rparr>))
   \<and> (bearer = Some t \<and> verify_token t = Some user
        \<and> (users d userId \<noteq> None \<or> userId = sub user)
        \<and> new_id \<in> chat_ident ` set (chats d) \<longrightarrow>
      create_chat_route verify_token bearer new_id userId d = (Inl DbError, d))
   \<and> (bearer = Some t \<and> verify_token t = Some user
        \<and> create_chat_route verify_token bearer new_id userId d = (Inr r1, d1)
        \<and> create_chat_route verify_token bearer next_id userId d1 = (Inr r2, d2) \<longrightarrow>
      new_id \<noteq> next_id
      \<and> r1 = (''Chat created'', new_id) \<and> r2 = (''Chat created'', next_id)
      \<and> chats d2 = chats d @
          [\<lparr>chat_ident = new_id, name = [], participants = [sub user, userId]\<rparr>,
           \<lparr>chat_ident = next_id, name = [], participants = [sub user, userId]\<rparr>])"
proof -
  note a = route_401 [of verify_token bearer new_id userId d]
  have b: "fst (create_chat_route verify_token bearer new_id userId d) = Inl (HTTPException 400)
      \<longleftrightarrow> (\<exists>t user. bearer = Some t \<and> verify_token t = Some user
            \<and> users d userId = None \<and> userId \<noteq> sub user)"
  proof (cases "bearer = None \<or> (\<exists>t. bearer = Some t \<and> verify_token t = None)")
    case True
    then have "\<not> (\<exists>t user. bearer = Some t \<and> verify_token t = Some user
            \<and> users d userId = None \<and> userId \<noteq> sub user)"
      by auto
    moreover have "fst (create_chat_route verify_token bearer new_id userId d)
        = Inl (HTTPException 401)"
      using a True by simp
    ultimately show ?thesis by simp
  next
    case False
    then obtain t user where bt: "bearer = Some t" and v: "verify_token t = Some user"
      by (cases bearer) auto
    note rv = route_valid [where verify_token = verify_token, OF bt v, of new_id userId d]
    show ?thesis
      unfolding rv using bt v by auto
  qed
  have c: "\<forall>e. fst (create_chat_route verify_token bearer new_id userId d) = Inl e
        \<longrightarrow> snd (create_chat_route verify_token bearer new_id userId d) = d"
  proof (cases "bearer = None \<or> (\<exists>t. bearer = Some t \<and> verify_token t = None)")
    case True
    then show ?thesis
      by (simp add: create_chat_route_def get_current_user_401 [OF True])
  next
    case False
    then obtain t user where bt: "bearer = Some t" and v: "verify_token t = Some user"
      by (cases bearer) auto
    note rv = route_valid [where verify_token = verify_token, OF bt v, of new_id userId d]
    show ?thesis
      unfolding rv by simp
  qed
  have e: "bearer = Some t \<and> verify_token t = Some user
        \<and> (users d userId \<noteq> None \<or> userId = sub user)
        \<and> new_id \<notin> chat_ident ` set (chats d) \<longrightarrow>
      create_chat_route verify_token bearer new_id userId d =
        (Inr (''Chat created'', new_id),
         d\<lparr>users := (case users d (sub user) of
                        None \<Rightarrow> (users d)(sub user \<mapsto> preferred_username user)
                      | Some _ \<Rightarrow> users d),
           chats := chats d @
             [\<lparr>chat_ident = new_id, name = [], participants = [sub user, userId]\<rparr>]\<rparr>)"
    using route_valid [where verify_token = verify_token and bearer = bearer and t = t
        and user = user, of new_id userId d]
    by auto
  have f: "bearer = Some t \<and> verify_token t = Some user
        \<and> (users d userId \<noteq> None \<or> userId = sub user)
        \<and> new_id \<in> chat_ident ` set (chats d) \<longrightarrow>
      create_chat_route verify_token bearer new_id userId d = (Inl DbError, d)"
    using route_valid [where verify_token = verify_token and bearer = bearer and t = t
        and user = user, of new_id userId d]
    by auto
  have g: "bearer = Some t \<and> verify_token t = Some user
        \<and> create_chat_route verify_token bearer new_id userId d = (Inr r1, d1)
        \<and> create_chat_route verify_token bearer next_id userId d1 = (Inr r2, d2) \<longrightarrow>
      new_id \<noteq> next_id
      \<and> r1 = (''Chat created'', new_id) \<and> r2 = (''Chat created'', next_id)
      \<and> chats d2 = chats d @
          [\<lparr>chat_ident = new_id, name = [], participants = [sub user, userId]\<rparr>,
           \<lparr>chat_ident = next_id, name = [], participants = [sub user, userId]\<rparr>]"
    using route_two_calls [where verify_token = verify_token and bearer = bearer and t = t
        and user = user and new_id = new_id and next_id = next_id and userId = userId
        and d = d and ?d1.0 = d1 and ?d2.0 = d2 and ?r1.0 = r1 and ?r2.0 = r2]
    by blast
  show ?thesis
    by (intro conjI) (rule a, rule b, rule c, rule e, rule f, rule g)
qed

text \<open>
  Claim C10 as stated fails for a caller who is not a registered user: with a
  registered partner the call succeeds, creates the chat and registers the caller,
  where the claim has a 400.
\<close>

theorem create_chat_unregistered_caller_counterexample:
  "users demo_newcomer_db (sub alice) = None
   \<and> users demo_newcomer_db ''u2'' = Some ''bob''
   \<and> fst (create_chat_route demo_verify (Some ''token-alice'') ''r2'' ''u2'' demo_newcomer_db)
       = Inr (''Chat created'', ''r2'')
   \<and> users (snd (create_chat_route demo_verify (Some ''token-alice'') ''r2'' ''u2''
        demo_newcomer_db)) (sub alice) = Some ''alice''
   \<and> chats (snd (create_chat_route demo_verify (Some ''token-alice'') ''r2'' ''u2''
        demo_newcomer_db))
       = [\<lparr>chat_ident = ''r2'', name = [], participants = [''u1'', ''u2'']\<rparr>]"
  by (simp add: create_chat_route_def get_current_user_def create_chat_def Let_def
      demo_verify_def alice_def demo_newcomer_db_def)

text \<open>
  C10 for two calls by the same caller for the same partner, in a database that
  already has a chat of the two.
\<close>

theorem create_chat_no_duplicate_check_witness:
  "create_chat_route demo_verify (Some ''token-alice'') ''r2'' ''u2'' demo_db =
     (Inr (''Chat created'', ''r2''),
      demo_db\<lparr>chats :=
        [\<lparr>chat_ident = ''r1'', name = [], participants = [''u1'', ''u2'']\<rparr>,
         \<lparr>chat_ident = ''r2'', name = [], participants = [''u1'', ''u2'']\<rparr>]\<rparr>)
   \<and> create_chat_route demo_verify (Some ''token-alice'') ''r3'' ''u2''
       (demo_db\<lparr>chats :=
        [\<lparr>chat_ident = ''r1'', name = [], participants = [''u1'', ''u2'']\<rparr>,
         \<lparr>chat_ident = ''r2'', name = [], participants = [''u1'', ''u2'']\<rparr>]\<rparr>) =
     (Inr (''Chat created'', ''r3''),
      demo_db\<lparr>chats :=
        [\<lparr>chat_ident = ''r1'', name = [], participants = [''u1'', ''u2'']\<rparr>,
         \<lparr>chat_ident = ''r2'', name = [], participants = [''u1'', ''u2'']\<rparr>,
         \<lparr>chat_ident = ''r3'', name = [], participants = [''u1'', ''u2'']\<rparr>]\<rparr>)
   \<and> ''r2'' \<noteq> ''r3''"
proof -
  define d1 where "d1 = demo_db\<lparr>chats :=
        [\<lparr>chat_ident = ''r1'', name = [], participants = [''u1'', ''u2'']\<rparr>,
         \<lparr>chat_ident = ''r2'', name = [], participants = [''u1'', ''u2'']\<rparr>]\<rparr>"
  define d2 where "d2 = demo_db\<lparr>chats :=
        [\<lparr>chat_ident = ''r1'', name = [], participants = [''u1'', ''u2'']\<rparr>,
         \<lparr>chat_ident = ''r2'', name = [], participants = [''u1'', ''u2'']\<rparr>,
         \<lparr>chat_ident = ''r3'', name = [], participants = [''u1'', ''u2'']\<rparr>]\<rparr>"
  have v: "demo_verify ''token-alice'' = Some alice" by (simp add: demo_verify_def)
  have h1: "Some ''token-alice'' = Some ''token-alice'' \<and> demo_verify ''token-alice'' = Some alice
        \<and> (users demo_db ''u2'' \<noteq> None \<or> ''u2'' = sub alice)
        \<and> ''r2'' \<notin> chat_ident ` set (chats demo_db)"
    by (simp add: v demo_db_def)
  have h2: "Some ''token-alice'' = Some ''token-alice'' \<and> demo_verify ''token-alice'' = Some alice
        \<and> (users d1 ''u2'' \<noteq> None \<or> ''u2'' = sub alice)
        \<and> ''r3'' \<notin> chat_ident ` set (chats d1)"
    by (simp add: v demo_db_def d1_def)
  note T1 = create_chat_no_duplicate_check [where verify_token = demo_verify
      and bearer = "Some ''token-alice''" and t = "''token-alice''" and user = alice
      and userId = "''u2''" and d = demo_db and new_id = "''r2''",
      THEN conjunct2, THEN conjunct2, THEN conjunct2, THEN conjunct1, rule_format, OF h1]
  note T2 = create_chat_no_duplicate_check [where verify_token = demo_verify
      and bearer = "Some ''token-alice''" and t = "''token-alice''" and user = alice
      and userId = "''u2''" and d = d1 and new_id = "''r3''",
      THEN conjunct2, THEN conjunct2, THEN conjunct2, THEN conjunct1, rule_format, OF h2]
  have r1: "create_chat_route demo_verify (Some ''token-alice'') ''r2'' ''u2'' demo_db =
      (Inr (''Chat created'', ''r2''), d1)"
    using T1 by (simp add: d1_def demo_db_def alice_def)
  have r2: "create_chat_route demo_verify (Some ''token-alice'') ''r3'' ''u2'' d1 =
      (Inr (''Chat created'', ''r3''), d2)"
    using T2 by (simp add: d1_def d2_def demo_db_def alice_def)
  have h3: "Some ''token-alice'' = Some ''token-alice'' \<and> demo_verify ''token-alice'' = Some alice
        \<and> create_chat_route demo_verify (Some ''token-alice'') ''r2'' ''u2'' demo_db =
            (Inr (''Chat created'', ''r2''), d1)
        \<and> create_chat_route demo_verify (Some ''token-alice'') ''r3'' ''u2'' d1 =
            (Inr (''Chat created'', ''r3''), d2)"
    using v r1 r2 by simp
  note T3 = create_chat_no_duplicate_check [where verify_token = demo_verify
      and bearer = "Some ''token-alice''" and t = "''token-alice''" and user = alice
      and userId = "''u2''" and d = demo_db and new_id = "''r2''" and next_id = "''r3''"
      and ?d1.0 = d1 and ?d2.0 = d2
      and ?r1.0 = "(''Chat created'', ''r2'')" and ?r2.0 = "(''Chat created'', ''r3'')",
      THEN conjunct2, THEN conjunct2, THEN conjunct2, THEN conjunct2, THEN conjunct2,
      rule_format, OF h3]
  have ne: "''r2'' \<noteq> ''r3''" by (rule T3 [THEN conjunct1])
  from r1 r2 ne show ?thesis
    unfolding d1_def d2_def by (intro conjI)
qed

end
